theory Spec2Isabelle
  imports Main "HOL-Library.Word" "HOL-Library.Finite_Map"
begin

section \<open>Data model (outline.go, lines 15-61)\<close>

text \<open>
  The Go structs become records. \<open>Id\<close> is already the identity relation of HOL, so the
  field \<open>AccessKey.Id\<close> is written \<open>Id'\<close>; the fields of \<open>ServerResponse\<close> and
  \<open>MetricsResponse\<close> that share a name with a field of another struct carry a suffix.
  Go's \<open>int\<close> is only stored, compared and printed here, never computed with, and is
  modelled by \<open>int\<close>; \<open>int64\<close> is \<open>64 word\<close>. A slice is a list (a nil slice and
  an empty slice are both \<open>[]\<close>: the code only takes \<open>len\<close> and ranges over it). A
  Go map that may be nil is an optional finite map, \<open>None\<close> being the nil map.
\<close>

record AccessKey =
  Id' :: string
  Name :: string
  Password :: string
  Port :: int
  Method :: string
  AccessUrl :: string

record AccessKeysResponse =
  AccessKeys :: "AccessKey list"

record MetricsResponse =
  MetricsEnabled :: bool

record ServerResponse =
  ServerName :: string
  ServerId :: string
  ServerMetricsEnabled :: bool
  CreatedTimestampMs :: "64 word"
  Version :: string
  PortForNewAccessKeys :: int
  HostnameForAccessKeys :: string

type_synonym gomap = "(string, 64 word) fmap option"

record TransferData =
  BytesTransferredByUserId :: gomap

text \<open>The zero values of the result structs (what a named result holds before assignment).\<close>

definition zeroAccessKey :: AccessKey where
  "zeroAccessKey =
     \<lparr>Id' = [], Name = [], Password = [], Port = 0, Method = [], AccessUrl = []\<rparr>"

definition zeroAccessKeysResponse :: AccessKeysResponse where
  "zeroAccessKeysResponse = \<lparr>AccessKeys = []\<rparr>"

definition zeroMetricsResponse :: MetricsResponse where
  "zeroMetricsResponse = \<lparr>MetricsEnabled = False\<rparr>"

definition zeroServerResponse :: ServerResponse where
  "zeroServerResponse =
     \<lparr>ServerName = [], ServerId = [], ServerMetricsEnabled = False, CreatedTimestampMs = 0,
      Version = [], PortForNewAccessKeys = 0, HostnameForAccessKeys = []\<rparr>"

definition zeroTransferData :: TransferData where
  "zeroTransferData = \<lparr>BytesTransferredByUserId = None\<rparr>"

text \<open>\<open>len(m)\<close> and the comma-ok lookup \<open>_, ok := m[k]\<close> of a possibly nil Go map.\<close>

definition len_map :: "gomap \<Rightarrow> nat" where
  "len_map m = (case m of None \<Rightarrow> 0 | Some t \<Rightarrow> fcard (fmdom t))"

definition lookup_ok :: "gomap \<Rightarrow> string \<Rightarrow> bool" where
  "lookup_ok m k = (case m of None \<Rightarrow> False | Some t \<Rightarrow> fmlookup t k \<noteq> None)"

subsection \<open>Errors\<close>

text \<open>
  Every error value the package builds with \<open>fmt.Errorf\<close> or \<open>errors.New\<close> is a
  constructor; a \<open>%w\<close> wrapper keeps the wrapped error. \<open>External\<close> is an error handed
  over by net/http, context or encoding/json.
\<close>

datatype error =
    External string
  | FailedToCreateRequest error
  | FailedToExecuteRequest error
  | ServerRespondedWithCode int
  | ReaderIsNil
  | RequestTimedOut error
  | FailedToDeleteAllDataLimits error
  | FailedToMarshalData error
  | FailedToSendPUT error
  | FailedToSendDELETE error

subsection \<open>Requests, responses and the external collaborators\<close>

text \<open>
  A request as \<open>MakeRequest\<close> hands it to the transport: the timeout of its context in
  seconds, method, full URL, header and body. A response is read by this package through
  \<open>StatusCode\<close> and \<open>Body\<close> only; \<open>Body = None\<close> is a nil reader.
\<close>

record Request =
  ReqTimeout :: nat
  ReqMethod :: string
  ReqURL :: string
  ReqHeader :: "(string \<times> string) list"
  ReqBody :: "string option"

record Response =
  StatusCode :: int
  Body :: "string option"

text \<open>The values passed to \<open>json.Marshal\<close> by the endpoint methods.\<close>

datatype json =
    JString string
  | JBool bool
  | JInt int
  | JInt64 "64 word"
  | JObject "(string \<times> json) list"

text \<open>
  The transport, the context clock and the JSON library are outside the package. They are
  the fields of an environment: \<open>NewRequestErr\<close> is the error of
  \<open>http.NewRequestWithContext\<close> for a method and URL, \<open>Do\<close> is \<open>httpClient.Do\<close>
  acting on the state \<open>'w\<close> of everything behind the transport, \<open>CtxErr\<close> is
  \<open>ctx.Err()\<close> of a context just created with the given timeout, \<open>Marshal\<close> is
  \<open>json.Marshal\<close>, and each decoder is \<open>Decoder.Decode\<close> into a value of one result
  type, from the bytes of the body and the value it starts from.
\<close>

record 'w Env =
  NewRequestErr :: "string \<Rightarrow> string \<Rightarrow> error option"
  Do :: "'w \<Rightarrow> Request \<Rightarrow> (error + Response) \<times> 'w"
  CtxErr :: "'w \<Rightarrow> nat \<Rightarrow> error option"
  Marshal :: "json \<Rightarrow> string \<times> error option"
  DecodeServerResponse :: "string \<Rightarrow> ServerResponse \<Rightarrow> ServerResponse \<times> error option"
  DecodeMetricsResponse :: "string \<Rightarrow> MetricsResponse \<Rightarrow> MetricsResponse \<times> error option"
  DecodeAccessKey :: "string \<Rightarrow> AccessKey \<Rightarrow> AccessKey \<times> error option"
  DecodeAccessKeysResponse ::
    "string \<Rightarrow> AccessKeysResponse \<Rightarrow> AccessKeysResponse \<times> error option"
  DecodeTransferData :: "string \<Rightarrow> TransferData \<Rightarrow> TransferData \<times> error option"

text \<open>
  The client. \<open>httpClient\<close> holds the state behind the transport handle; \<open>sent\<close> is
  the log of the requests given to \<open>httpClient.Do\<close>, oldest first, kept to count calls.
\<close>

record 'w Client =
  ApiUrl :: string
  httpClient :: 'w
  sent :: "Request list"
  accessKeysCache :: "AccessKey list"
  transferredDataCache :: gomap

definition contentTypeJSON :: string where
  "contentTypeJSON = ''application/json''"

definition jsonHeader :: "(string \<times> string) list" where
  "jsonHeader = [(''Content-Type'', contentTypeJSON)]"

section \<open>The request executor (outline.go, lines 82-114)\<close>

definition NewRequestWithContext ::
  "'w Env \<Rightarrow> nat \<Rightarrow> string \<Rightarrow> string \<Rightarrow> string option \<Rightarrow> error + Request" where
  "NewRequestWithContext env ctx method url body =
     (case NewRequestErr env method url of
        Some err \<Rightarrow> Inl err
      | None \<Rightarrow> Inr \<lparr>ReqTimeout = ctx, ReqMethod = method, ReqURL = url,
                     ReqHeader = [], ReqBody = body\<rparr>)"

text \<open>
  \<open>req.Header.Set(key, value)\<close>: the entry of \<open>key\<close> is replaced or added. The
  canonical spelling that net/http gives the name is not modelled, and the header map of
  the caller is a list, visited in its order: every call site passes at most one entry.
\<close>

definition Header_Set :: "string \<Rightarrow> string \<Rightarrow> Request \<Rightarrow> Request" where
  "Header_Set key v req =
     req\<lparr>ReqHeader := (key, v) # filter (\<lambda>kv. fst kv \<noteq> key) (ReqHeader req)\<rparr>"

text \<open>
  \<open>MakeRequest\<close> returns \<open>(nil, err)\<close> or \<open>(resp, nil)\<close> and nothing else: \<open>Inl err\<close>
  is the first, \<open>Inr resp\<close> the second.
\<close>

definition MakeRequest ::
  "'w Env \<Rightarrow> nat \<Rightarrow> string \<Rightarrow> string \<Rightarrow> (string \<times> string) list \<Rightarrow> string option
     \<Rightarrow> 'w Client \<Rightarrow> (error + Response) \<times> 'w Client" where
  "MakeRequest env ctx method endpoint headers body c =
     (let fullURL = ApiUrl c @ endpoint in
      case NewRequestWithContext env ctx method fullURL body of
        Inl err \<Rightarrow> (Inl (FailedToCreateRequest err), c)
      | Inr req0 \<Rightarrow>
          (let req = fold (\<lambda>kv. Header_Set (fst kv) (snd kv)) headers req0;
               (r, w) = Do env (httpClient c) req;
               c1 = c\<lparr>httpClient := w, sent := sent c @ [req]\<rparr>
           in case r of
                Inl err \<Rightarrow> (Inl (FailedToExecuteRequest err), c1)
              | Inr resp \<Rightarrow>
                  if StatusCode resp \<ge> 400
                  then (Inl (ServerRespondedWithCode (StatusCode resp)), c1)
                  else (Inr resp, c1)))"

definition parseJSONFromReader ::
  "(string \<Rightarrow> 'a \<Rightarrow> 'a \<times> error option) \<Rightarrow> string option \<Rightarrow> 'a \<Rightarrow> 'a \<times> error option" where
  "parseJSONFromReader decode r v =
     (case r of
        None \<Rightarrow> (v, Some ReaderIsNil)
      | Some bytes \<Rightarrow> decode bytes v)"

section \<open>Endpoint methods (outline.go, lines 116-271)\<close>

text \<open>
  A method with a Go result \<open>(T, error)\<close> returns the pair of the value and the optional
  error, and the client after the call.
\<close>

definition sendPutRequest ::
  "'w Env \<Rightarrow> string \<Rightarrow> json \<Rightarrow> 'w Client \<Rightarrow> (bool \<times> error option) \<times> 'w Client" where
  "sendPutRequest env endpoint data c =
     (case Marshal env data of
        (byteData, Some err) \<Rightarrow> ((False, Some (FailedToMarshalData err)), c)
      | (byteData, None) \<Rightarrow>
          (case MakeRequest env 10 ''PUT'' endpoint jsonHeader (Some byteData) c of
             (Inl err, c1) \<Rightarrow> ((False, Some (FailedToSendPUT err)), c1)
           | (Inr resp, c1) \<Rightarrow> ((StatusCode resp = 200, None), c1)))"

definition sendDeleteRequest ::
  "'w Env \<Rightarrow> string \<Rightarrow> 'w Client \<Rightarrow> (bool \<times> error option) \<times> 'w Client" where
  "sendDeleteRequest env endpoint c =
     (case MakeRequest env 10 ''DELETE'' endpoint jsonHeader None c of
        (Inl err, c1) \<Rightarrow> ((False, Some (FailedToSendDELETE err)), c1)
      | (Inr resp, c1) \<Rightarrow> ((StatusCode resp = 204, None), c1))"

text \<open>\<open>fmt.Sprintf("%d", n)\<close> of a Go int: decimal digits, with a minus sign below zero.\<close>

fun digits :: "nat \<Rightarrow> string" where
  "digits n =
     (if n < 10 then [char_of (48 + n)]
      else digits (n div 10) @ [char_of (48 + n mod 10)])"

declare digits.simps [simp del]

definition Sprintf_d :: "int \<Rightarrow> string" where
  "Sprintf_d n = (if n < 0 then CHR ''-'' # digits (nat (- n)) else digits (nat n))"

definition GetServerInfo ::
  "'w Env \<Rightarrow> 'w Client \<Rightarrow> (ServerResponse \<times> error option) \<times> 'w Client" where
  "GetServerInfo env c =
     (case MakeRequest env 5 ''GET'' ''/server'' [(''content-type'', contentTypeJSON)] None c of
        (Inl err, c1) \<Rightarrow> ((zeroServerResponse, Some err), c1)
      | (Inr resp, c1) \<Rightarrow>
          (case parseJSONFromReader (DecodeServerResponse env) (Body resp) zeroServerResponse of
             (result, Some err) \<Rightarrow> ((zeroServerResponse, Some err), c1)
           | (result, None) \<Rightarrow> ((result, None), c1)))"

definition ChangeHostname ::
  "'w Env \<Rightarrow> string \<Rightarrow> 'w Client \<Rightarrow> (bool \<times> error option) \<times> 'w Client" where
  "ChangeHostname env hostname c =
     sendPutRequest env ''/server/hostname-for-access-keys''
       (JObject [(''hostname'', JString hostname)]) c"

definition RenameServer ::
  "'w Env \<Rightarrow> string \<Rightarrow> 'w Client \<Rightarrow> (bool \<times> error option) \<times> 'w Client" where
  "RenameServer env name c = sendPutRequest env ''/name'' (JObject [(''name'', JString name)]) c"

definition CheckMetrics ::
  "'w Env \<Rightarrow> 'w Client \<Rightarrow> (MetricsResponse \<times> error option) \<times> 'w Client" where
  "CheckMetrics env c =
     (case MakeRequest env 10 ''GET'' ''/metrics/enabled''
             [(''content-type'', contentTypeJSON)] None c of
        (Inl err, c1) \<Rightarrow> ((zeroMetricsResponse, Some err), c1)
      | (Inr resp, c1) \<Rightarrow>
          (parseJSONFromReader (DecodeMetricsResponse env) (Body resp) zeroMetricsResponse, c1))"

definition ChangeMetrics ::
  "'w Env \<Rightarrow> bool \<Rightarrow> 'w Client \<Rightarrow> (bool \<times> error option) \<times> 'w Client" where
  "ChangeMetrics env flag c =
     sendPutRequest env ''/metrics/enabled'' (JObject [(''metricsEnabled'', JBool flag)]) c"

definition ChangeDefaultPort ::
  "'w Env \<Rightarrow> int \<Rightarrow> 'w Client \<Rightarrow> (bool \<times> error option) \<times> 'w Client" where
  "ChangeDefaultPort env port c =
     sendPutRequest env ''/server/port-for-new-access-keys'' (JObject [(''port'', JInt port)]) c"

definition SetDataLimitAllKeys ::
  "'w Env \<Rightarrow> 64 word \<Rightarrow> 'w Client \<Rightarrow> (bool \<times> error option) \<times> 'w Client" where
  "SetDataLimitAllKeys env limit c =
     sendPutRequest env ''/server/access-key-data-limit''
       (JObject [(''limit'', JObject [(''bytes'', JInt64 limit)])]) c"

definition DeleteAllDataLimits ::
  "'w Env \<Rightarrow> 'w Client \<Rightarrow> (bool \<times> error option) \<times> 'w Client" where
  "DeleteAllDataLimits env c =
     (case MakeRequest env 10 ''DELETE'' ''/server/access-key-data-limit'' [] None c of
        (Inl err, c1) \<Rightarrow> ((False, Some (FailedToDeleteAllDataLimits err)), c1)
      | (Inr resp, c1) \<Rightarrow>
          if StatusCode resp = 204 then ((True, None), c1) else ((False, None), c1))"

text \<open>\<open>CreateAccessKey\<close> overwrites the error of \<open>json.Marshal\<close> without reading it.\<close>

definition CreateAccessKey ::
  "'w Env \<Rightarrow> 'w Client \<Rightarrow> (AccessKey \<times> error option) \<times> 'w Client" where
  "CreateAccessKey env c =
     (let data = JObject [(''method'', JString ''aes-192-gcm'')];
          (byteData, err0) = Marshal env data
      in case MakeRequest env 5 ''POST'' ''/access-keys''
                [(''content-type'', contentTypeJSON)] (Some byteData) c of
           (Inl err, c1) \<Rightarrow> ((zeroAccessKey, Some err), c1)
         | (Inr resp, c1) \<Rightarrow>
             (parseJSONFromReader (DecodeAccessKey env) (Body resp) zeroAccessKey, c1))"

definition GetListAccessKeys ::
  "'w Env \<Rightarrow> 'w Client \<Rightarrow> (AccessKeysResponse \<times> error option) \<times> 'w Client" where
  "GetListAccessKeys env c =
     (case CtxErr env (httpClient c) 2 of
        Some ctxerr \<Rightarrow> ((zeroAccessKeysResponse, Some (RequestTimedOut ctxerr)), c)
      | None \<Rightarrow>
          (case MakeRequest env 2 ''GET'' ''/access-keys''
                  [(''content-type'', contentTypeJSON)] None c of
             (Inl err, c1) \<Rightarrow> ((zeroAccessKeysResponse, Some err), c1)
           | (Inr resp, c1) \<Rightarrow>
               (parseJSONFromReader (DecodeAccessKeysResponse env) (Body resp)
                  zeroAccessKeysResponse, c1)))"

definition DeleteAccessKey ::
  "'w Env \<Rightarrow> string \<Rightarrow> 'w Client \<Rightarrow> (bool \<times> error option) \<times> 'w Client" where
  "DeleteAccessKey env id' c = sendDeleteRequest env (''/access-keys/'' @ id') c"

definition RenameAccessKey ::
  "'w Env \<Rightarrow> int \<Rightarrow> string \<Rightarrow> 'w Client \<Rightarrow> (bool \<times> error option) \<times> 'w Client" where
  "RenameAccessKey env id' name c =
     sendPutRequest env (''/access-keys/'' @ Sprintf_d id' @ ''/name'')
       (JObject [(''name'', JString name)]) c"

definition SetDataLimitAccessKey ::
  "'w Env \<Rightarrow> int \<Rightarrow> 64 word \<Rightarrow> 'w Client \<Rightarrow> (bool \<times> error option) \<times> 'w Client" where
  "SetDataLimitAccessKey env id' limit c =
     sendPutRequest env (''/access-keys/'' @ Sprintf_d id' @ ''/data-limit'')
       (JObject [(''limit'', JObject [(''bytes'', JInt64 limit)])]) c"

definition DeleteDataLimitAccessKey ::
  "'w Env \<Rightarrow> int \<Rightarrow> 'w Client \<Rightarrow> (bool \<times> error option) \<times> 'w Client" where
  "DeleteDataLimitAccessKey env id' c =
     sendDeleteRequest env (''/access-keys/'' @ Sprintf_d id' @ ''/data-limit'') c"

definition DataTransferredAccessKey ::
  "'w Env \<Rightarrow> 'w Client \<Rightarrow> (TransferData \<times> error option) \<times> 'w Client" where
  "DataTransferredAccessKey env c =
     (case MakeRequest env 30 ''GET'' ''/metrics/transfer''
             [(''content-type'', contentTypeJSON)] None c of
        (Inl err, c1) \<Rightarrow> ((zeroTransferData, Some err), c1)
      | (Inr resp, c1) \<Rightarrow>
          (parseJSONFromReader (DecodeTransferData env) (Body resp) zeroTransferData, c1))"

section \<open>Caches and convenience methods (part_000)\<close>

text \<open>
  The block that fills the access-key cache is written four times in the source, verbatim
  (part_000, lines 4-10, 20-26, 36-42, 66-72), and the one that fills the transferred-data
  cache twice (lines 47-53, 58-64). Each is one function here: it returns the error that
  makes the enclosing method return early, if any, and the client. The guard of the first
  is \<open>len(c.accessKeysCache) == 0\<close>, the guard of the second is
  \<open>c.transferredDataCache == nil\<close>.
\<close>

definition fillAccessKeysCache :: "'w Env \<Rightarrow> 'w Client \<Rightarrow> error option \<times> 'w Client" where
  "fillAccessKeysCache env c =
     (if length (accessKeysCache c) = 0 then
        (case GetListAccessKeys env c of
           ((accessKeysResponse, Some err), c1) \<Rightarrow> (Some err, c1)
         | ((accessKeysResponse, None), c1) \<Rightarrow>
             (None, c1\<lparr>accessKeysCache := AccessKeys accessKeysResponse\<rparr>))
      else (None, c))"

definition fillTransferredDataCache :: "'w Env \<Rightarrow> 'w Client \<Rightarrow> error option \<times> 'w Client" where
  "fillTransferredDataCache env c =
     (if transferredDataCache c = None then
        (case DataTransferredAccessKey env c of
           ((resp, Some err), c1) \<Rightarrow> (Some err, c1)
         | ((resp, None), c1) \<Rightarrow>
             (None, c1\<lparr>transferredDataCache := BytesTransferredByUserId resp\<rparr>))
      else (None, c))"

text \<open>The \<open>for ... range\<close> scans of lines 11-15 and 27-31: the first key with the id.\<close>

fun GetAccessKeyByID_scan :: "AccessKey list \<Rightarrow> string \<Rightarrow> AccessKey \<times> error option" where
  "GetAccessKeyByID_scan [] id' = (zeroAccessKey, None)"
| "GetAccessKeyByID_scan (key # keys) id' =
     (if Id' key = id' then (key, None) else GetAccessKeyByID_scan keys id')"

fun CheckAccessKeyByID_scan :: "AccessKey list \<Rightarrow> string \<Rightarrow> bool \<times> error option" where
  "CheckAccessKeyByID_scan [] id' = (False, None)"
| "CheckAccessKeyByID_scan (key # keys) id' =
     (if Id' key = id' then (True, None) else CheckAccessKeyByID_scan keys id')"

definition GetAccessKeyByID ::
  "'w Env \<Rightarrow> string \<Rightarrow> 'w Client \<Rightarrow> (AccessKey \<times> error option) \<times> 'w Client" where
  "GetAccessKeyByID env id' c =
     (case fillAccessKeysCache env c of
        (Some err, c1) \<Rightarrow> ((zeroAccessKey, Some err), c1)
      | (None, c1) \<Rightarrow> (GetAccessKeyByID_scan (accessKeysCache c1) id', c1))"

definition CheckAccessKeyByID ::
  "'w Env \<Rightarrow> string \<Rightarrow> 'w Client \<Rightarrow> (bool \<times> error option) \<times> 'w Client" where
  "CheckAccessKeyByID env id' c =
     (case fillAccessKeysCache env c of
        (Some err, c1) \<Rightarrow> ((False, Some err), c1)
      | (None, c1) \<Rightarrow> (CheckAccessKeyByID_scan (accessKeysCache c1) id', c1))"

definition GetNumberOfUsers ::
  "'w Env \<Rightarrow> 'w Client \<Rightarrow> (int \<times> error option) \<times> 'w Client" where
  "GetNumberOfUsers env c =
     (case fillAccessKeysCache env c of
        (Some err, c1) \<Rightarrow> ((0, Some err), c1)
      | (None, c1) \<Rightarrow> ((int (length (accessKeysCache c1)), None), c1))"

definition GetNumberOfActiveUsers ::
  "'w Env \<Rightarrow> 'w Client \<Rightarrow> (int \<times> error option) \<times> 'w Client" where
  "GetNumberOfActiveUsers env c =
     (case fillTransferredDataCache env c of
        (Some err, c1) \<Rightarrow> ((0, Some err), c1)
      | (None, c1) \<Rightarrow> ((int (len_map (transferredDataCache c1)), None), c1))"

text \<open>
  The loop of lines 74-81 over the keys still to visit. The boolean that
  \<open>DeleteAccessKey\<close> returns is dropped; only its error is read.
\<close>

fun DeleteAllKeysWithOutTraffic_loop ::
  "'w Env \<Rightarrow> AccessKey list \<Rightarrow> 'w Client \<Rightarrow> (bool \<times> error option) \<times> 'w Client" where
  "DeleteAllKeysWithOutTraffic_loop env [] c = ((True, None), c)"
| "DeleteAllKeysWithOutTraffic_loop env (accessKey # keys) c =
     (if \<not> lookup_ok (transferredDataCache c) (Id' accessKey) then
        (case DeleteAccessKey env (Id' accessKey) c of
           ((b, Some err), c1) \<Rightarrow> ((False, Some err), c1)
         | ((b, None), c1) \<Rightarrow> DeleteAllKeysWithOutTraffic_loop env keys c1)
      else DeleteAllKeysWithOutTraffic_loop env keys c)"

definition DeleteAllKeysWithOutTraffic ::
  "'w Env \<Rightarrow> 'w Client \<Rightarrow> (bool \<times> error option) \<times> 'w Client" where
  "DeleteAllKeysWithOutTraffic env c =
     (case fillTransferredDataCache env c of
        (Some err, c1) \<Rightarrow> ((False, Some err), c1)
      | (None, c1) \<Rightarrow>
          (case fillAccessKeysCache env c1 of
             (Some err, c2) \<Rightarrow> ((False, Some err), c2)
           | (None, c2) \<Rightarrow> DeleteAllKeysWithOutTraffic_loop env (accessKeysCache c2) c2))"

section \<open>Calls on a client\<close>

text \<open>
  One constructor for each exported method of \<open>Client\<close>, with its arguments; \<open>call\<close>
  is the client after the method has returned, \<open>calls\<close> the client after a sequence.
\<close>

datatype Op =
    OpMakeRequest nat string string "(string \<times> string) list" "string option"
  | OpGetServerInfo
  | OpChangeHostname string
  | OpRenameServer string
  | OpCheckMetrics
  | OpChangeMetrics bool
  | OpChangeDefaultPort int
  | OpSetDataLimitAllKeys "64 word"
  | OpDeleteAllDataLimits
  | OpCreateAccessKey
  | OpGetListAccessKeys
  | OpDeleteAccessKey string
  | OpRenameAccessKey int string
  | OpSetDataLimitAccessKey int "64 word"
  | OpDeleteDataLimitAccessKey int
  | OpDataTransferredAccessKey
  | OpGetAccessKeyByID string
  | OpCheckAccessKeyByID string
  | OpGetNumberOfUsers
  | OpGetNumberOfActiveUsers
  | OpDeleteAllKeysWithOutTraffic

fun call :: "'w Env \<Rightarrow> Op \<Rightarrow> 'w Client \<Rightarrow> 'w Client" where
  "call env (OpMakeRequest ctx method endpoint headers body) c =
     snd (MakeRequest env ctx method endpoint headers body c)"
| "call env OpGetServerInfo c = snd (GetServerInfo env c)"
| "call env (OpChangeHostname hostname) c = snd (ChangeHostname env hostname c)"
| "call env (OpRenameServer name) c = snd (RenameServer env name c)"
| "call env OpCheckMetrics c = snd (CheckMetrics env c)"
| "call env (OpChangeMetrics flag) c = snd (ChangeMetrics env flag c)"
| "call env (OpChangeDefaultPort port) c = snd (ChangeDefaultPort env port c)"
| "call env (OpSetDataLimitAllKeys limit) c = snd (SetDataLimitAllKeys env limit c)"
| "call env OpDeleteAllDataLimits c = snd (DeleteAllDataLimits env c)"
| "call env OpCreateAccessKey c = snd (CreateAccessKey env c)"
| "call env OpGetListAccessKeys c = snd (GetListAccessKeys env c)"
| "call env (OpDeleteAccessKey id') c = snd (DeleteAccessKey env id' c)"
| "call env (OpRenameAccessKey id' name) c = snd (RenameAccessKey env id' name c)"
| "call env (OpSetDataLimitAccessKey id' limit) c = snd (SetDataLimitAccessKey env id' limit c)"
| "call env (OpDeleteDataLimitAccessKey id') c = snd (DeleteDataLimitAccessKey env id' c)"
| "call env OpDataTransferredAccessKey c = snd (DataTransferredAccessKey env c)"
| "call env (OpGetAccessKeyByID id') c = snd (GetAccessKeyByID env id' c)"
| "call env (OpCheckAccessKeyByID id') c = snd (CheckAccessKeyByID env id' c)"
| "call env OpGetNumberOfUsers c = snd (GetNumberOfUsers env c)"
| "call env OpGetNumberOfActiveUsers c = snd (GetNumberOfActiveUsers env c)"
| "call env OpDeleteAllKeysWithOutTraffic c = snd (DeleteAllKeysWithOutTraffic env c)"

fun calls :: "'w Env \<Rightarrow> Op list \<Rightarrow> 'w Client \<Rightarrow> 'w Client" where
  "calls env [] c = c"
| "calls env (op # ops) c = calls env ops (call env op c)"

text \<open>
  The requests a computation handed to the transport: the part of the log of the client
  after it that the client before it did not have.
\<close>

definition issued :: "'w Client \<Rightarrow> 'w Client \<Rightarrow> Request list" where
  "issued c c' = drop (length (sent c)) (sent c')"

text \<open>The request sent by \<open>DeleteAccessKey\<close> for an id, and by the two cache fetches.\<close>

definition deleteRequest :: "'w Client \<Rightarrow> string \<Rightarrow> Request" where
  "deleteRequest c id' =
     \<lparr>ReqTimeout = 10, ReqMethod = ''DELETE'', ReqURL = ApiUrl c @ ''/access-keys/'' @ id',
      ReqHeader = jsonHeader, ReqBody = None\<rparr>"

definition listRequest :: "'w Client \<Rightarrow> Request" where
  "listRequest c =
     \<lparr>ReqTimeout = 2, ReqMethod = ''GET'', ReqURL = ApiUrl c @ ''/access-keys'',
      ReqHeader = [(''content-type'', contentTypeJSON)], ReqBody = None\<rparr>"

definition transferRequest :: "'w Client \<Rightarrow> Request" where
  "transferRequest c =
     \<lparr>ReqTimeout = 30, ReqMethod = ''GET'', ReqURL = ApiUrl c @ ''/metrics/transfer'',
      ReqHeader = [(''content-type'', contentTypeJSON)], ReqBody = None\<rparr>"

text \<open>The request \<open>MakeRequest\<close> builds from its arguments (lines 84-93).\<close>

definition requestFor ::
  "'w Client \<Rightarrow> nat \<Rightarrow> string \<Rightarrow> string \<Rightarrow> (string \<times> string) list \<Rightarrow> string option
     \<Rightarrow> Request" where
  "requestFor c ctx method endpoint headers body =
     fold (\<lambda>kv. Header_Set (fst kv) (snd kv)) headers
       \<lparr>ReqTimeout = ctx, ReqMethod = method, ReqURL = ApiUrl c @ endpoint,
        ReqHeader = [], ReqBody = body\<rparr>"

text \<open>The access keys of a cache that \<open>DeleteAllKeysWithOutTraffic\<close> has to delete.\<close>

definition withoutTraffic :: "gomap \<Rightarrow> AccessKey list \<Rightarrow> AccessKey list" where
  "withoutTraffic m keys = filter (\<lambda>k. \<not> lookup_ok m (Id' k)) keys"

text \<open>
  The results of the delete calls for a list of ids when the calls are made one after
  another, each on the client the call before it left, and the clients on which they are
  made.
\<close>

fun deleteResults :: "'w Env \<Rightarrow> string list \<Rightarrow> 'w Client \<Rightarrow> (bool \<times> error option) list" where
  "deleteResults env [] c = []"
| "deleteResults env (id' # ids) c =
     fst (DeleteAccessKey env id' c) # deleteResults env ids (snd (DeleteAccessKey env id' c))"

fun deleteStates :: "'w Env \<Rightarrow> string list \<Rightarrow> 'w Client \<Rightarrow> 'w Client list" where
  "deleteStates env [] c = []"
| "deleteStates env (id' # ids) c = c # deleteStates env ids (snd (DeleteAccessKey env id' c))"

section \<open>A scripted transport for concrete runs\<close>

text \<open>
  An environment whose transport answers each request by a fixed function of the request
  and counts the calls. Its decoder of the key list makes one key of each byte of the body,
  its decoder of the transfer data gives each byte of the body 100 bytes of traffic.
\<close>

definition keyOf :: "string \<Rightarrow> AccessKey" where
  "keyOf id' = zeroAccessKey\<lparr>Id' := id'\<rparr>"

definition mockEnv :: "(Request \<Rightarrow> error + Response) \<Rightarrow> nat Env" where
  "mockEnv respond =
     \<lparr>NewRequestErr =
        (\<lambda>method url. if CHR '' '' \<in> set method then Some (External ''invalid method'') else None),
      Do = (\<lambda>w req. (respond req, Suc w)),
      CtxErr = (\<lambda>w t. None),
      Marshal = (\<lambda>j. (''{}'', None)),
      DecodeServerResponse = (\<lambda>bytes v. (v, None)),
      DecodeMetricsResponse = (\<lambda>bytes v. (v, None)),
      DecodeAccessKey = (\<lambda>bytes v. (v, None)),
      DecodeAccessKeysResponse = (\<lambda>bytes v. (\<lparr>AccessKeys = map (\<lambda>ch. keyOf [ch]) bytes\<rparr>, None)),
      DecodeTransferData =
        (\<lambda>bytes v. (\<lparr>BytesTransferredByUserId =
                         Some (fmap_of_list (map (\<lambda>ch. ([ch], 100)) bytes))\<rparr>, None))\<rparr>"

definition respondWith :: "int \<Rightarrow> string \<Rightarrow> Request \<Rightarrow> error + Response" where
  "respondWith code bytes req = Inr \<lparr>StatusCode = code, Body = Some bytes\<rparr>"

definition respondDown :: "Request \<Rightarrow> error + Response" where
  "respondDown req = Inl (External ''connection refused'')"

text \<open>A server that drops the connection on the delete of key b and answers 204 otherwise.\<close>

definition respondFailB :: "Request \<Rightarrow> error + Response" where
  "respondFailB req =
     (if ReqMethod req = ''DELETE'' \<and> ReqURL req = ''https://host/access-keys/b''
      then Inl (External ''connection reset'')
      else Inr \<lparr>StatusCode = 204, Body = Some []\<rparr>)"

definition client0 :: "nat Client" where
  "client0 =
     \<lparr>ApiUrl = ''https://host'', httpClient = 0, sent = [],
      accessKeysCache = [], transferredDataCache = None\<rparr>"

definition clientAB :: "nat Client" where
  "clientAB = client0\<lparr>accessKeysCache := [keyOf ''a'', keyOf ''b'']\<rparr>"

definition clientABC :: "nat Client" where
  "clientABC =
     client0\<lparr>accessKeysCache := [keyOf ''a'', keyOf ''b'', keyOf ''c''],
             transferredDataCache := Some (fmupd ''a'' 100 fmempty)\<rparr>"


definition clientZeroBytes :: "nat Client" where
  "clientZeroBytes =
     client0\<lparr>accessKeysCache := [keyOf ''a'', keyOf ''b''],
             transferredDataCache := Some (fmupd ''a'' 0 fmempty)\<rparr>"

text \<open>
  A server with the keys a, b, c, of which a has traffic: it answers the fetch of the
  transfer data and the fetch of the key list, and leaves every other request to the
  given function. A transport that answers its first \<open>n\<close> requests and drops the
  connection on every later one.
\<close>

definition respondABC :: "(Request \<Rightarrow> error + Response) \<Rightarrow> Request \<Rightarrow> error + Response" where
  "respondABC other req =
     (if ReqMethod req = ''GET'' \<and> ReqURL req = ''https://host/metrics/transfer''
      then Inr \<lparr>StatusCode = 200, Body = Some ''a''\<rparr>
      else if ReqMethod req = ''GET'' \<and> ReqURL req = ''https://host/access-keys''
      then Inr \<lparr>StatusCode = 200, Body = Some ''abc''\<rparr>
      else other req)"

definition flakyEnv :: "nat \<Rightarrow> (Request \<Rightarrow> error + Response) \<Rightarrow> nat Env" where
  "flakyEnv n respond =
     (mockEnv respond)
       \<lparr>Do := (\<lambda>w req. (if w < n then respond req else Inl (External ''connection reset''),
                        Suc w))\<rparr>"

section \<open>Facts about the request executor\<close>

lemma MakeRequest_construct_fails:
  "NewRequestErr env method (ApiUrl c @ endpoint) = Some e \<Longrightarrow>
   MakeRequest env ctx method endpoint headers body c = (Inl (FailedToCreateRequest e), c)"
  by (simp add: MakeRequest_def NewRequestWithContext_def)

lemma MakeRequest_sends:
  "NewRequestErr env method (ApiUrl c @ endpoint) = None \<Longrightarrow>
   MakeRequest env ctx method endpoint headers body c =
     (let req = requestFor c ctx method endpoint headers body;
          c1 = c\<lparr>httpClient := snd (Do env (httpClient c) req), sent := sent c @ [req]\<rparr>
      in case fst (Do env (httpClient c) req) of
           Inl err \<Rightarrow> (Inl (FailedToExecuteRequest err), c1)
         | Inr resp \<Rightarrow>
             if StatusCode resp \<ge> 400
             then (Inl (ServerRespondedWithCode (StatusCode resp)), c1)
             else (Inr resp, c1))"
  by (simp add: MakeRequest_def NewRequestWithContext_def requestFor_def Let_def
      split: prod.splits sum.splits)

lemma MakeRequest_caches:
  "accessKeysCache (snd (MakeRequest env ctx method endpoint headers body c)) = accessKeysCache c"
  "transferredDataCache (snd (MakeRequest env ctx method endpoint headers body c)) =
     transferredDataCache c"
  "ApiUrl (snd (MakeRequest env ctx method endpoint headers body c)) = ApiUrl c"
  by (simp_all add: MakeRequest_def Let_def split: prod.splits sum.splits)

lemmas mock_simps = mockEnv_def respondWith_def respondDown_def client0_def requestFor_def
  Header_Set_def jsonHeader_def contentTypeJSON_def

text \<open>
  C1. Whatever the transport answers, \<open>MakeRequest\<close> returns the raw response with no
  error when its status code is in the 2xx class, and fails with the error carrying the
  status code, returning no response, when the status code is at least 400. A failure to
  build the request and a failure of the transport are errors too; after the first the
  client is as it was, so nothing was sent.
\<close>

theorem MakeRequest_status_classes:
  "(NewRequestErr env method (ApiUrl c @ endpoint) = Some e \<longrightarrow>
      MakeRequest env ctx method endpoint headers body c = (Inl (FailedToCreateRequest e), c))
   \<and> (NewRequestErr env method (ApiUrl c @ endpoint) = None \<and>
        fst (Do env (httpClient c) (requestFor c ctx method endpoint headers body)) = Inl e \<longrightarrow>
      fst (MakeRequest env ctx method endpoint headers body c) = Inl (FailedToExecuteRequest e))
   \<and> (NewRequestErr env method (ApiUrl c @ endpoint) = None \<and>
        fst (Do env (httpClient c) (requestFor c ctx method endpoint headers body)) = Inr resp \<and>
        200 \<le> StatusCode resp \<and> StatusCode resp < 300 \<longrightarrow>
      fst (MakeRequest env ctx method endpoint headers body c) = Inr resp)
   \<and> (NewRequestErr env method (ApiUrl c @ endpoint) = None \<and>
        fst (Do env (httpClient c) (requestFor c ctx method endpoint headers body)) = Inr resp \<and>
        400 \<le> StatusCode resp \<longrightarrow>
      fst (MakeRequest env ctx method endpoint headers body c) =
        Inl (ServerRespondedWithCode (StatusCode resp)))"
  by (simp add: MakeRequest_construct_fails MakeRequest_sends Let_def)

theorem MakeRequest_status_classes_witness:
  "MakeRequest (mockEnv (respondWith 200 [])) 5 ''BAD METHOD'' ''/server'' [] None client0 =
     (Inl (FailedToCreateRequest (External ''invalid method'')), client0)
   \<and> fst (MakeRequest (mockEnv respondDown) 5 ''GET'' ''/server'' [] None client0) =
       Inl (FailedToExecuteRequest (External ''connection refused''))
   \<and> fst (MakeRequest (mockEnv (respondWith 201 ''x'')) 5 ''GET'' ''/server'' [] None client0) =
       Inr \<lparr>StatusCode = 201, Body = Some ''x''\<rparr>
   \<and> fst (MakeRequest (mockEnv (respondWith 404 ''x'')) 5 ''GET'' ''/server'' [] None client0) =
       Inl (ServerRespondedWithCode 404)"
  using
    MakeRequest_status_classes [of "mockEnv (respondWith 200 [])" "''BAD METHOD''" client0
      "''/server''" "External ''invalid method''" 5 "[]" None]
    MakeRequest_status_classes [of "mockEnv respondDown" "''GET''" client0
      "''/server''" "External ''connection refused''" 5 "[]" None]
    MakeRequest_status_classes [of "mockEnv (respondWith 201 ''x'')" "''GET''" client0
      "''/server''" _ 5 "[]" None "\<lparr>StatusCode = 201, Body = Some ''x''\<rparr>"]
    MakeRequest_status_classes [of "mockEnv (respondWith 404 ''x'')" "''GET''" client0
      "''/server''" _ 5 "[]" None "\<lparr>StatusCode = 404, Body = Some ''x''\<rparr>"]
  by (simp add: mock_simps)

section \<open>Facts about the PUT and DELETE helpers\<close>

lemma sendDeleteRequest_sends:
  "NewRequestErr env ''DELETE'' (ApiUrl c @ endpoint) = None \<Longrightarrow>
   fst (Do env (httpClient c) (requestFor c 10 ''DELETE'' endpoint jsonHeader None)) = Inr resp \<Longrightarrow>
   fst (sendDeleteRequest env endpoint c) =
     (if StatusCode resp \<ge> 400
      then (False, Some (FailedToSendDELETE (ServerRespondedWithCode (StatusCode resp))))
      else (StatusCode resp = 204, None))"
  by (simp add: sendDeleteRequest_def MakeRequest_sends Let_def)

lemma sendPutRequest_sends:
  "Marshal env data = (bytes, None) \<Longrightarrow>
   NewRequestErr env ''PUT'' (ApiUrl c @ endpoint) = None \<Longrightarrow>
   fst (Do env (httpClient c) (requestFor c 10 ''PUT'' endpoint jsonHeader (Some bytes))) = Inr resp \<Longrightarrow>
   fst (sendPutRequest env endpoint data c) =
     (if StatusCode resp \<ge> 400
      then (False, Some (FailedToSendPUT (ServerRespondedWithCode (StatusCode resp))))
      else (StatusCode resp = 200, None))"
  by (simp add: sendPutRequest_def MakeRequest_sends Let_def)

lemma sendPutRequest_true_iff:
  "fst (fst (sendPutRequest env endpoint data c)) \<longleftrightarrow>
     snd (Marshal env data) = None \<and>
     NewRequestErr env ''PUT'' (ApiUrl c @ endpoint) = None \<and>
     (\<exists>resp. fst (Do env (httpClient c)
                 (requestFor c 10 ''PUT'' endpoint jsonHeader (Some (fst (Marshal env data))))) =
               Inr resp \<and> StatusCode resp = 200)"
proof (cases "Marshal env data")
  case (Pair bytes merr)
  show ?thesis
  proof (cases merr)
    case (Some e)
    with Pair show ?thesis by (simp add: sendPutRequest_def)
  next
    case None
    note m = Pair [unfolded None]
    show ?thesis
    proof (cases "NewRequestErr env ''PUT'' (ApiUrl c @ endpoint)")
      case (Some e)
      with m show ?thesis
        by (simp add: sendPutRequest_def MakeRequest_construct_fails)
    next
      case None
      with m show ?thesis
        by (auto simp add: sendPutRequest_def MakeRequest_sends Let_def split: sum.splits)
    qed
  qed
qed

lemma sendDeleteRequest_true_iff:
  "fst (fst (sendDeleteRequest env endpoint c)) \<longleftrightarrow>
     NewRequestErr env ''DELETE'' (ApiUrl c @ endpoint) = None \<and>
     (\<exists>resp. fst (Do env (httpClient c) (requestFor c 10 ''DELETE'' endpoint jsonHeader None)) =
               Inr resp \<and> StatusCode resp = 204)"
proof (cases "NewRequestErr env ''DELETE'' (ApiUrl c @ endpoint)")
  case (Some e)
  then show ?thesis
    by (simp add: sendDeleteRequest_def MakeRequest_construct_fails)
next
  case None
  then show ?thesis
    by (auto simp add: sendDeleteRequest_def MakeRequest_sends Let_def split: sum.splits)
qed

text \<open>
  C4, as the claim states it, fails: a DELETE answered with status 404 returns false
  together with an error, not false without error.
\<close>

theorem sendDeleteRequest_status_counterexample:
  "fst (sendDeleteRequest (mockEnv (respondWith 404 [])) ''/access-keys/7'' client0) =
     (False, Some (FailedToSendDELETE (ServerRespondedWithCode 404)))"
  by (simp add: sendDeleteRequest_def MakeRequest_def NewRequestWithContext_def mock_simps)

text \<open>
  C4, amended. \<open>sendDeleteRequest\<close>, and with it \<open>DeleteAccessKey\<close> and
  \<open>DeleteDataLimitAccessKey\<close>, returns true exactly when the request was built and the
  transport answered with status 204. For any other status below 400 it returns false
  without error; for a status of 400 or more it returns false with the error that wraps
  the status code.
\<close>

theorem sendDeleteRequest_status:
  "(fst (fst (sendDeleteRequest env endpoint c)) \<longleftrightarrow>
      NewRequestErr env ''DELETE'' (ApiUrl c @ endpoint) = None \<and>
      (\<exists>resp. fst (Do env (httpClient c) (requestFor c 10 ''DELETE'' endpoint jsonHeader None)) =
                Inr resp \<and> StatusCode resp = 204))
   \<and> (NewRequestErr env ''DELETE'' (ApiUrl c @ endpoint) = None \<and>
        fst (Do env (httpClient c) (requestFor c 10 ''DELETE'' endpoint jsonHeader None)) = Inr resp \<longrightarrow>
      fst (sendDeleteRequest env endpoint c) =
        (if StatusCode resp \<ge> 400
         then (False, Some (FailedToSendDELETE (ServerRespondedWithCode (StatusCode resp))))
         else (StatusCode resp = 204, None)))
   \<and> DeleteAccessKey env id' c = sendDeleteRequest env (''/access-keys/'' @ id') c
   \<and> DeleteDataLimitAccessKey env n c =
       sendDeleteRequest env (''/access-keys/'' @ Sprintf_d n @ ''/data-limit'') c"
  using sendDeleteRequest_true_iff [of env endpoint c]
  by (simp add: sendDeleteRequest_sends DeleteAccessKey_def DeleteDataLimitAccessKey_def)

theorem sendDeleteRequest_status_witness:
  "fst (sendDeleteRequest (mockEnv (respondWith 204 [])) ''/access-keys/7'' client0) = (True, None)
   \<and> fst (sendDeleteRequest (mockEnv (respondWith 200 [])) ''/access-keys/7'' client0) = (False, None)
   \<and> fst (sendDeleteRequest (mockEnv (respondWith 500 [])) ''/access-keys/7'' client0) =
       (False, Some (FailedToSendDELETE (ServerRespondedWithCode 500)))"
  using
    sendDeleteRequest_status [of "mockEnv (respondWith 204 [])" "''/access-keys/7''" client0
      "\<lparr>StatusCode = 204, Body = Some []\<rparr>"]
    sendDeleteRequest_status [of "mockEnv (respondWith 200 [])" "''/access-keys/7''" client0
      "\<lparr>StatusCode = 200, Body = Some []\<rparr>"]
    sendDeleteRequest_status [of "mockEnv (respondWith 500 [])" "''/access-keys/7''" client0
      "\<lparr>StatusCode = 500, Body = Some []\<rparr>"]
  by (simp add: mock_simps)

text \<open>
  C5. \<open>sendPutRequest\<close>, and with it \<open>RenameServer\<close>, \<open>ChangeMetrics\<close> and
  \<open>ChangeDefaultPort\<close>, returns true exactly when the data was marshalled, the request
  was built and the transport answered with status 200. Any other status below 400, the
  other 2xx ones among them, gives false with no error, and a status of 400 or more gives
  false with an error.
\<close>

theorem sendPutRequest_status:
  "(fst (fst (sendPutRequest env endpoint data c)) \<longleftrightarrow>
      snd (Marshal env data) = None \<and>
      NewRequestErr env ''PUT'' (ApiUrl c @ endpoint) = None \<and>
      (\<exists>resp. fst (Do env (httpClient c)
                  (requestFor c 10 ''PUT'' endpoint jsonHeader (Some (fst (Marshal env data))))) =
                Inr resp \<and> StatusCode resp = 200))
   \<and> (Marshal env data = (bytes, None) \<and>
        NewRequestErr env ''PUT'' (ApiUrl c @ endpoint) = None \<and>
        fst (Do env (httpClient c) (requestFor c 10 ''PUT'' endpoint jsonHeader (Some bytes))) =
          Inr resp \<longrightarrow>
      fst (sendPutRequest env endpoint data c) =
        (if StatusCode resp \<ge> 400
         then (False, Some (FailedToSendPUT (ServerRespondedWithCode (StatusCode resp))))
         else (StatusCode resp = 200, None)))
   \<and> RenameServer env name c = sendPutRequest env ''/name'' (JObject [(''name'', JString name)]) c
   \<and> ChangeMetrics env flag c =
       sendPutRequest env ''/metrics/enabled'' (JObject [(''metricsEnabled'', JBool flag)]) c
   \<and> ChangeDefaultPort env port c =
       sendPutRequest env ''/server/port-for-new-access-keys'' (JObject [(''port'', JInt port)]) c"
  using sendPutRequest_true_iff [of env endpoint data c]
  by (simp add: sendPutRequest_sends RenameServer_def ChangeMetrics_def ChangeDefaultPort_def)

theorem sendPutRequest_status_witness:
  "fst (RenameServer (mockEnv (respondWith 200 [])) ''vpn'' client0) = (True, None)
   \<and> fst (RenameServer (mockEnv (respondWith 204 [])) ''vpn'' client0) = (False, None)
   \<and> fst (RenameServer (mockEnv (respondWith 500 [])) ''vpn'' client0) =
       (False, Some (FailedToSendPUT (ServerRespondedWithCode 500)))"
  using
    sendPutRequest_status [of "mockEnv (respondWith 200 [])" "''/name''"
      "JObject [(''name'', JString ''vpn'')]" client0 "''{}''"
      "\<lparr>StatusCode = 200, Body = Some []\<rparr>" "''vpn''"]
    sendPutRequest_status [of "mockEnv (respondWith 204 [])" "''/name''"
      "JObject [(''name'', JString ''vpn'')]" client0 "''{}''"
      "\<lparr>StatusCode = 204, Body = Some []\<rparr>" "''vpn''"]
    sendPutRequest_status [of "mockEnv (respondWith 500 [])" "''/name''"
      "JObject [(''name'', JString ''vpn'')]" client0 "''{}''"
      "\<lparr>StatusCode = 500, Body = Some []\<rparr>" "''vpn''"]
  by (simp add: mock_simps)

section \<open>Facts about the caches\<close>

lemma issued_self [simp]: "issued c c = []"
  by (simp add: issued_def)

lemma issued_append: "sent c' = sent c @ rs \<Longrightarrow> issued c c' = rs"
  by (simp add: issued_def)

lemma requestFor_list:
  "requestFor c 2 ''GET'' ''/access-keys'' [(''content-type'', contentTypeJSON)] None = listRequest c"
  by (simp add: requestFor_def listRequest_def Header_Set_def)

lemma requestFor_transfer:
  "requestFor c 30 ''GET'' ''/metrics/transfer'' [(''content-type'', contentTypeJSON)] None =
     transferRequest c"
  by (simp add: requestFor_def transferRequest_def Header_Set_def)

lemma requestFor_delete:
  "requestFor c 10 ''DELETE'' (''/access-keys/'' @ id') jsonHeader None = deleteRequest c id'"
  by (simp add: requestFor_def deleteRequest_def Header_Set_def jsonHeader_def)

lemma MakeRequest_Inr_sent:
  assumes "MakeRequest env ctx method endpoint headers body c = (Inr resp, c1)"
  shows "sent c1 = sent c @ [requestFor c ctx method endpoint headers body]"
proof (cases "NewRequestErr env method (ApiUrl c @ endpoint)")
  case (Some e)
  with assms show ?thesis by (simp add: MakeRequest_construct_fails)
next
  case None
  with assms show ?thesis
    by (auto simp add: MakeRequest_sends Let_def split: sum.splits if_splits)
qed

lemma MakeRequest_sent_cases:
  "sent (snd (MakeRequest env ctx method endpoint headers body c)) =
     (if NewRequestErr env method (ApiUrl c @ endpoint) = None
      then sent c @ [requestFor c ctx method endpoint headers body] else sent c)"
  by (auto simp add: MakeRequest_sends MakeRequest_construct_fails Let_def split: sum.splits)

lemma GetListAccessKeys_ok:
  assumes "GetListAccessKeys env c = ((r, None), c1)"
  shows "sent c1 = sent c @ [listRequest c]"
    and "accessKeysCache c1 = accessKeysCache c"
    and "transferredDataCache c1 = transferredDataCache c"
    and "ApiUrl c1 = ApiUrl c"
proof -
  from assms obtain resp where
    m: "MakeRequest env 2 ''GET'' ''/access-keys'' [(''content-type'', contentTypeJSON)] None c =
          (Inr resp, c1)"
    by (auto simp add: GetListAccessKeys_def split: option.splits prod.splits sum.splits)
  from MakeRequest_Inr_sent [OF m] show "sent c1 = sent c @ [listRequest c]"
    by (simp add: requestFor_list)
  from MakeRequest_caches [of env 2 "''GET''" "''/access-keys''"
      "[(''content-type'', contentTypeJSON)]" None c] m
  show "accessKeysCache c1 = accessKeysCache c"
    and "transferredDataCache c1 = transferredDataCache c"
    and "ApiUrl c1 = ApiUrl c"
    by simp_all
qed

lemma fillAccessKeysCache_populated:
  "accessKeysCache c \<noteq> [] \<Longrightarrow> fillAccessKeysCache env c = (None, c)"
  by (simp add: fillAccessKeysCache_def)

lemma fillTransferredDataCache_populated:
  "transferredDataCache c = Some m \<Longrightarrow> fillTransferredDataCache env c = (None, c)"
  by (simp add: fillTransferredDataCache_def)

lemma fillAccessKeysCache_fetch:
  assumes "accessKeysCache c = []" and "fillAccessKeysCache env c = (None, c1)"
  shows "sent c1 = sent c @ [listRequest c]"
    and "transferredDataCache c1 = transferredDataCache c"
    and "ApiUrl c1 = ApiUrl c"
proof -
  from assms obtain r c0 where
    g: "GetListAccessKeys env c = ((r, None), c0)" and
    c1: "c1 = c0\<lparr>accessKeysCache := AccessKeys r\<rparr>"
    by (auto simp add: fillAccessKeysCache_def split: prod.splits option.splits)
  from GetListAccessKeys_ok [OF g] c1
  show "sent c1 = sent c @ [listRequest c]"
    and "transferredDataCache c1 = transferredDataCache c"
    and "ApiUrl c1 = ApiUrl c"
    by simp_all
qed

lemma GetAccessKeyByID_scan_absent:
  "id' \<notin> Id' ` set keys \<Longrightarrow> GetAccessKeyByID_scan keys id' = (zeroAccessKey, None)"
  by (induction keys) auto

text \<open>
  C3, as the claim states it, fails: when the server has no access keys the first call
  stores an empty list, the guard \<open>len(c.accessKeysCache) == 0\<close> holds again, and the
  second call fetches the list a second time.
\<close>

theorem GetAccessKeyByID_twice_counterexample:
  "issued client0
     (snd (GetAccessKeyByID (mockEnv (respondWith 200 [])) ''a''
        (snd (GetAccessKeyByID (mockEnv (respondWith 200 [])) ''a'' client0)))) =
   [listRequest client0, listRequest client0]"
  by (simp add: GetAccessKeyByID_def fillAccessKeysCache_def GetListAccessKeys_def
      MakeRequest_def NewRequestWithContext_def parseJSONFromReader_def issued_def
      listRequest_def mock_simps)

text \<open>
  C3, amended. For a client whose access-key cache starts empty, when the first
  \<open>GetAccessKeyByID\<close> returns no error and leaves at least one key in the cache, the
  first call handed exactly one request to the transport, the fetch of the key list; the
  second call hands none, leaves the client as it is and answers from the cache, so both
  calls together made exactly one list fetch.
\<close>

theorem GetAccessKeyByID_twice_one_fetch:
  assumes "accessKeysCache c = []"
    and "GetAccessKeyByID env id1 c = ((k1, None), c1)"
    and "accessKeysCache c1 \<noteq> []"
  shows "issued c c1 = [listRequest c]
     \<and> GetAccessKeyByID env id2 c1 = (GetAccessKeyByID_scan (accessKeysCache c1) id2, c1)
     \<and> issued c1 (snd (GetAccessKeyByID env id2 c1)) = []
     \<and> issued c (snd (GetAccessKeyByID env id2 c1)) = [listRequest c]"
proof -
  from assms(2) have f: "fillAccessKeysCache env c = (None, c1)"
    by (auto simp add: GetAccessKeyByID_def split: prod.splits option.splits)
  from fillAccessKeysCache_fetch(1) [OF assms(1) f] have i: "issued c c1 = [listRequest c]"
    by (rule issued_append)
  from assms(3) have s: "GetAccessKeyByID env id2 c1 =
      (GetAccessKeyByID_scan (accessKeysCache c1) id2, c1)"
    by (simp add: GetAccessKeyByID_def fillAccessKeysCache_populated)
  from i s show ?thesis by simp
qed

theorem GetAccessKeyByID_twice_one_fetch_witness:
  "issued client0 (snd (GetAccessKeyByID (mockEnv (respondWith 200 ''ab'')) ''a'' client0)) =
     [listRequest client0]
   \<and> issued client0
       (snd (GetAccessKeyByID (mockEnv (respondWith 200 ''ab'')) ''b''
          (snd (GetAccessKeyByID (mockEnv (respondWith 200 ''ab'')) ''a'' client0)))) =
     [listRequest client0]"
proof -
  let ?env = "mockEnv (respondWith 200 ''ab'')"
  let ?c1 = "client0\<lparr>httpClient := 1, sent := [listRequest client0],
               accessKeysCache := [keyOf ''a'', keyOf ''b'']\<rparr>"
  have a: "accessKeysCache client0 = []" by (simp add: client0_def)
  have g: "GetAccessKeyByID ?env ''a'' client0 = ((keyOf ''a'', None), ?c1)"
    by (simp add: GetAccessKeyByID_def fillAccessKeysCache_def GetListAccessKeys_def
        MakeRequest_def NewRequestWithContext_def parseJSONFromReader_def
        listRequest_def keyOf_def mock_simps)
  have n: "accessKeysCache ?c1 \<noteq> []" by simp
  from GetAccessKeyByID_twice_one_fetch [OF a g n, of "''b''"] g show ?thesis by simp
qed

text \<open>
  C6. For an id that no key of the populated access-key cache has, \<open>GetAccessKeyByID\<close>
  returns the zero-value key and a nil error, both when the cache was populated before the
  call (the client is then unchanged) and when this call populated it without error.
\<close>

theorem GetAccessKeyByID_absent:
  "(accessKeysCache c \<noteq> [] \<and> id' \<notin> Id' ` set (accessKeysCache c) \<longrightarrow>
      GetAccessKeyByID env id' c = ((zeroAccessKey, None), c))
   \<and> (fillAccessKeysCache env c = (None, c1) \<and> id' \<notin> Id' ` set (accessKeysCache c1) \<longrightarrow>
      GetAccessKeyByID env id' c = ((zeroAccessKey, None), c1))"
  by (simp add: GetAccessKeyByID_def fillAccessKeysCache_populated GetAccessKeyByID_scan_absent)

theorem GetAccessKeyByID_absent_witness:
  "GetAccessKeyByID (mockEnv respondDown) ''missing-id'' clientAB = ((zeroAccessKey, None), clientAB)
   \<and> GetAccessKeyByID (mockEnv (respondWith 200 ''ab'')) ''missing-id'' client0 =
       ((zeroAccessKey, None),
        client0\<lparr>httpClient := 1, sent := [listRequest client0],
                accessKeysCache := [keyOf ''a'', keyOf ''b'']\<rparr>)"
proof -
  let ?env = "mockEnv (respondWith 200 ''ab'')"
  let ?c1 = "client0\<lparr>httpClient := 1, sent := [listRequest client0],
               accessKeysCache := [keyOf ''a'', keyOf ''b'']\<rparr>"
  have f: "fillAccessKeysCache ?env client0 = (None, ?c1)"
    by (simp add: fillAccessKeysCache_def GetListAccessKeys_def
        MakeRequest_def NewRequestWithContext_def parseJSONFromReader_def
        listRequest_def keyOf_def mock_simps)
  from GetAccessKeyByID_absent [where c = clientAB and id' = "''missing-id''"
      and env = "mockEnv respondDown"]
    GetAccessKeyByID_absent [where c = client0 and id' = "''missing-id''" and env = ?env
      and ?c1.0 = ?c1] f
  show ?thesis
    by (simp add: clientAB_def keyOf_def)
qed

subsection \<open>What each method leaves of the client\<close>

lemma sendPutRequest_snd:
  "snd (sendPutRequest env endpoint data c) =
     (case Marshal env data of
        (bytes, Some err) \<Rightarrow> c
      | (bytes, None) \<Rightarrow> snd (MakeRequest env 10 ''PUT'' endpoint jsonHeader (Some bytes) c))"
  by (simp add: sendPutRequest_def split: prod.splits option.splits sum.splits)

lemma sendDeleteRequest_snd:
  "snd (sendDeleteRequest env endpoint c) =
     snd (MakeRequest env 10 ''DELETE'' endpoint jsonHeader None c)"
  by (simp add: sendDeleteRequest_def split: prod.splits sum.splits)

lemma sendPutRequest_caches:
  "accessKeysCache (snd (sendPutRequest env endpoint data c)) = accessKeysCache c"
  "transferredDataCache (snd (sendPutRequest env endpoint data c)) = transferredDataCache c"
  "ApiUrl (snd (sendPutRequest env endpoint data c)) = ApiUrl c"
  by (simp_all add: sendPutRequest_snd MakeRequest_caches split: prod.splits option.splits)

lemma sendDeleteRequest_caches:
  "accessKeysCache (snd (sendDeleteRequest env endpoint c)) = accessKeysCache c"
  "transferredDataCache (snd (sendDeleteRequest env endpoint c)) = transferredDataCache c"
  "ApiUrl (snd (sendDeleteRequest env endpoint c)) = ApiUrl c"
  by (simp_all add: sendDeleteRequest_snd MakeRequest_caches)

lemma DeleteAccessKey_caches:
  "accessKeysCache (snd (DeleteAccessKey env id' c)) = accessKeysCache c"
  "transferredDataCache (snd (DeleteAccessKey env id' c)) = transferredDataCache c"
  "ApiUrl (snd (DeleteAccessKey env id' c)) = ApiUrl c"
  by (simp_all add: DeleteAccessKey_def sendDeleteRequest_caches)

lemma GetServerInfo_snd:
  "snd (GetServerInfo env c) =
     snd (MakeRequest env 5 ''GET'' ''/server'' [(''content-type'', contentTypeJSON)] None c)"
  by (simp add: GetServerInfo_def split: prod.splits sum.splits option.splits)

lemma CheckMetrics_snd:
  "snd (CheckMetrics env c) =
     snd (MakeRequest env 10 ''GET'' ''/metrics/enabled''
            [(''content-type'', contentTypeJSON)] None c)"
  by (simp add: CheckMetrics_def split: prod.splits sum.splits)

lemma DeleteAllDataLimits_snd:
  "snd (DeleteAllDataLimits env c) =
     snd (MakeRequest env 10 ''DELETE'' ''/server/access-key-data-limit'' [] None c)"
  by (simp add: DeleteAllDataLimits_def split: prod.splits sum.splits)

lemma CreateAccessKey_snd:
  "snd (CreateAccessKey env c) =
     snd (MakeRequest env 5 ''POST'' ''/access-keys'' [(''content-type'', contentTypeJSON)]
            (Some (fst (Marshal env (JObject [(''method'', JString ''aes-192-gcm'')])))) c)"
  by (simp add: CreateAccessKey_def Let_def split: prod.splits sum.splits)

lemma GetListAccessKeys_snd:
  "snd (GetListAccessKeys env c) =
     (case CtxErr env (httpClient c) 2 of
        Some e \<Rightarrow> c
      | None \<Rightarrow> snd (MakeRequest env 2 ''GET'' ''/access-keys''
                       [(''content-type'', contentTypeJSON)] None c))"
  by (simp add: GetListAccessKeys_def split: prod.splits sum.splits option.splits)

lemma DataTransferredAccessKey_snd:
  "snd (DataTransferredAccessKey env c) =
     snd (MakeRequest env 30 ''GET'' ''/metrics/transfer''
            [(''content-type'', contentTypeJSON)] None c)"
  by (simp add: DataTransferredAccessKey_def split: prod.splits sum.splits)

lemma GetListAccessKeys_caches:
  "accessKeysCache (snd (GetListAccessKeys env c)) = accessKeysCache c"
  "transferredDataCache (snd (GetListAccessKeys env c)) = transferredDataCache c"
  "ApiUrl (snd (GetListAccessKeys env c)) = ApiUrl c"
  by (simp_all add: GetListAccessKeys_snd MakeRequest_caches split: option.splits)

lemma DataTransferredAccessKey_caches:
  "accessKeysCache (snd (DataTransferredAccessKey env c)) = accessKeysCache c"
  "transferredDataCache (snd (DataTransferredAccessKey env c)) = transferredDataCache c"
  "ApiUrl (snd (DataTransferredAccessKey env c)) = ApiUrl c"
  by (simp_all add: DataTransferredAccessKey_snd MakeRequest_caches)

lemma fillAccessKeysCache_other:
  "transferredDataCache (snd (fillAccessKeysCache env c)) = transferredDataCache c"
  "ApiUrl (snd (fillAccessKeysCache env c)) = ApiUrl c"
  using GetListAccessKeys_caches [of env c]
  by (auto simp add: fillAccessKeysCache_def split: prod.splits option.splits)

lemma fillTransferredDataCache_other:
  "accessKeysCache (snd (fillTransferredDataCache env c)) = accessKeysCache c"
  "ApiUrl (snd (fillTransferredDataCache env c)) = ApiUrl c"
  using DataTransferredAccessKey_caches [of env c]
  by (auto simp add: fillTransferredDataCache_def split: prod.splits option.splits)

lemma loop_caches:
  "accessKeysCache (snd (DeleteAllKeysWithOutTraffic_loop env keys c)) = accessKeysCache c \<and>
   transferredDataCache (snd (DeleteAllKeysWithOutTraffic_loop env keys c)) =
     transferredDataCache c \<and>
   ApiUrl (snd (DeleteAllKeysWithOutTraffic_loop env keys c)) = ApiUrl c"
proof (induction keys arbitrary: c)
  case Nil
  show ?case by simp
next
  case (Cons k keys)
  show ?case
  proof (cases "lookup_ok (transferredDataCache c) (Id' k)")
    case True
    with Cons.IH [of c] show ?thesis by simp
  next
    case False
    obtain b err c1 where d: "DeleteAccessKey env (Id' k) c = ((b, err), c1)"
      by (metis surj_pair)
    from DeleteAccessKey_caches [of env "Id' k" c] d
    have p: "accessKeysCache c1 = accessKeysCache c"
      "transferredDataCache c1 = transferredDataCache c" "ApiUrl c1 = ApiUrl c"
      by simp_all
    show ?thesis
    proof (cases err)
      case None
      with False d p Cons.IH [of c1] show ?thesis by simp
    next
      case (Some e)
      with False d p show ?thesis by simp
    qed
  qed
qed

lemma GetAccessKeyByID_snd: "snd (GetAccessKeyByID env id' c) = snd (fillAccessKeysCache env c)"
  by (simp add: GetAccessKeyByID_def split: prod.splits option.splits)

lemma CheckAccessKeyByID_snd:
  "snd (CheckAccessKeyByID env id' c) = snd (fillAccessKeysCache env c)"
  by (simp add: CheckAccessKeyByID_def split: prod.splits option.splits)

lemma GetNumberOfUsers_snd: "snd (GetNumberOfUsers env c) = snd (fillAccessKeysCache env c)"
  by (simp add: GetNumberOfUsers_def split: prod.splits option.splits)

lemma GetNumberOfActiveUsers_snd:
  "snd (GetNumberOfActiveUsers env c) = snd (fillTransferredDataCache env c)"
  by (simp add: GetNumberOfActiveUsers_def split: prod.splits option.splits)

lemma DeleteAllKeysWithOutTraffic_caches:
  "accessKeysCache c \<noteq> [] \<Longrightarrow>
     accessKeysCache (snd (DeleteAllKeysWithOutTraffic env c)) = accessKeysCache c"
  "transferredDataCache c \<noteq> None \<Longrightarrow>
     transferredDataCache (snd (DeleteAllKeysWithOutTraffic env c)) = transferredDataCache c"
proof -
  obtain e1 c1 where f1: "fillTransferredDataCache env c = (e1, c1)" by (metis surj_pair)
  obtain e2 c2 where f2: "fillAccessKeysCache env c1 = (e2, c2)" by (metis surj_pair)
  from f1 fillTransferredDataCache_other(1) [of env c]
  have a1: "accessKeysCache c1 = accessKeysCache c" by simp
  from f2 fillAccessKeysCache_other(1) [of env c1]
  have t2: "transferredDataCache c2 = transferredDataCache c1" by simp
  { assume n: "accessKeysCache c \<noteq> []"
    with a1 f2 have "c2 = c1" by (simp add: fillAccessKeysCache_populated)
    with a1 f1 f2 loop_caches [of env "accessKeysCache c2" c2]
    show "accessKeysCache (snd (DeleteAllKeysWithOutTraffic env c)) = accessKeysCache c"
      by (simp add: DeleteAllKeysWithOutTraffic_def split: option.splits) }
  { assume n: "transferredDataCache c \<noteq> None"
    with f1 have "c1 = c" by (auto simp add: fillTransferredDataCache_populated)
    with t2 f1 f2 loop_caches [of env "accessKeysCache c2" c2]
    show "transferredDataCache (snd (DeleteAllKeysWithOutTraffic env c)) =
        transferredDataCache c"
      by (simp add: DeleteAllKeysWithOutTraffic_def split: option.splits) }
qed

lemma call_accessKeysCache:
  "accessKeysCache c \<noteq> [] \<Longrightarrow> accessKeysCache (call env op c) = accessKeysCache c"
  by (cases op)
    (simp_all add: MakeRequest_caches GetServerInfo_snd ChangeHostname_def RenameServer_def
      CheckMetrics_snd ChangeMetrics_def ChangeDefaultPort_def SetDataLimitAllKeys_def
      DeleteAllDataLimits_snd CreateAccessKey_snd GetListAccessKeys_caches
      DeleteAccessKey_caches RenameAccessKey_def SetDataLimitAccessKey_def
      DeleteDataLimitAccessKey_def DataTransferredAccessKey_caches GetAccessKeyByID_snd
      CheckAccessKeyByID_snd GetNumberOfUsers_snd GetNumberOfActiveUsers_snd
      sendPutRequest_caches sendDeleteRequest_caches fillAccessKeysCache_populated
      fillTransferredDataCache_other DeleteAllKeysWithOutTraffic_caches)

lemma call_transferredDataCache:
  "transferredDataCache c \<noteq> None \<Longrightarrow>
     transferredDataCache (call env op c) = transferredDataCache c"
  by (cases op)
    (auto simp add: MakeRequest_caches GetServerInfo_snd ChangeHostname_def RenameServer_def
      CheckMetrics_snd ChangeMetrics_def ChangeDefaultPort_def SetDataLimitAllKeys_def
      DeleteAllDataLimits_snd CreateAccessKey_snd GetListAccessKeys_caches
      DeleteAccessKey_caches RenameAccessKey_def SetDataLimitAccessKey_def
      DeleteDataLimitAccessKey_def DataTransferredAccessKey_caches GetAccessKeyByID_snd
      CheckAccessKeyByID_snd GetNumberOfUsers_snd GetNumberOfActiveUsers_snd
      sendPutRequest_caches sendDeleteRequest_caches fillTransferredDataCache_populated
      fillAccessKeysCache_other DeleteAllKeysWithOutTraffic_caches)

lemma calls_accessKeysCache:
  "accessKeysCache c \<noteq> [] \<Longrightarrow> accessKeysCache (calls env ops c) = accessKeysCache c"
  by (induction ops arbitrary: c) (simp_all add: call_accessKeysCache)

lemma calls_transferredDataCache:
  "transferredDataCache c \<noteq> None \<Longrightarrow>
     transferredDataCache (calls env ops c) = transferredDataCache c"
  by (induction ops arbitrary: c) (simp_all add: call_transferredDataCache)


subsection \<open>What each method hands to the transport\<close>


lemma DataTransferredAccessKey_ok:
  assumes "DataTransferredAccessKey env c = ((r, None), c1)"
  shows "sent c1 = sent c @ [transferRequest c]"
proof -
  from assms obtain resp where
    m: "MakeRequest env 30 ''GET'' ''/metrics/transfer''
          [(''content-type'', contentTypeJSON)] None c = (Inr resp, c1)"
    by (auto simp add: DataTransferredAccessKey_def split: prod.splits sum.splits)
  from MakeRequest_Inr_sent [OF m] show ?thesis
    by (simp add: requestFor_transfer)
qed




text \<open>
  C8. Once the access-key cache holds a key it is the same after any sequence of calls of
  the client's methods, and so is the transferred-data cache once it is not nil (hence
  once it has an entry): neither goes back to empty or is replaced. \<open>DeleteAccessKey\<close>
  and the delete loop of \<open>DeleteAllKeysWithOutTraffic\<close> leave both caches as they are
  in every state.
\<close>

theorem caches_populated_for_good:
  "(accessKeysCache c \<noteq> [] \<longrightarrow> accessKeysCache (calls env ops c) = accessKeysCache c)
   \<and> (transferredDataCache c \<noteq> None \<longrightarrow>
        transferredDataCache (calls env ops c) = transferredDataCache c)
   \<and> (0 < len_map (transferredDataCache c) \<longrightarrow>
        transferredDataCache (calls env ops c) = transferredDataCache c)
   \<and> accessKeysCache (snd (DeleteAccessKey env id' c)) = accessKeysCache c
   \<and> transferredDataCache (snd (DeleteAccessKey env id' c)) = transferredDataCache c
   \<and> accessKeysCache (snd (DeleteAllKeysWithOutTraffic_loop env keys c)) = accessKeysCache c
   \<and> transferredDataCache (snd (DeleteAllKeysWithOutTraffic_loop env keys c)) =
       transferredDataCache c"
proof -
  have "0 < len_map (transferredDataCache c) \<longrightarrow> transferredDataCache c \<noteq> None"
    by (cases "transferredDataCache c") (simp_all add: len_map_def)
  then show ?thesis
    by (simp add: calls_accessKeysCache calls_transferredDataCache DeleteAccessKey_caches
        loop_caches)
qed

theorem caches_populated_for_good_witness:
  "accessKeysCache
     (calls (mockEnv (respondWith 204 ''xyz''))
        [OpDeleteAccessKey ''b'', OpDeleteAllKeysWithOutTraffic, OpGetListAccessKeys,
         OpGetNumberOfUsers, OpGetNumberOfActiveUsers, OpDataTransferredAccessKey]
        clientABC) = [keyOf ''a'', keyOf ''b'', keyOf ''c'']
   \<and> transferredDataCache
     (calls (mockEnv (respondWith 204 ''xyz''))
        [OpDeleteAccessKey ''b'', OpDeleteAllKeysWithOutTraffic, OpGetListAccessKeys,
         OpGetNumberOfUsers, OpGetNumberOfActiveUsers, OpDataTransferredAccessKey]
        clientABC) = Some (fmupd ''a'' 100 fmempty)"
  using caches_populated_for_good [where c = clientABC
      and env = "mockEnv (respondWith 204 ''xyz'')"
      and ops = "[OpDeleteAccessKey ''b'', OpDeleteAllKeysWithOutTraffic, OpGetListAccessKeys,
         OpGetNumberOfUsers, OpGetNumberOfActiveUsers, OpDataTransferredAccessKey]"]
  by (simp add: clientABC_def len_map_def fcard_finsert_if)

subsection \<open>The delete loop\<close>

lemma DeleteAccessKey_sent:
  "sent (snd (DeleteAccessKey env id' c)) =
     (if NewRequestErr env ''DELETE'' (ApiUrl c @ ''/access-keys/'' @ id') = None
      then sent c @ [deleteRequest c id'] else sent c)"
  using requestFor_delete [of c id']
  by (simp add: DeleteAccessKey_def sendDeleteRequest_snd MakeRequest_sent_cases)

lemma DeleteAccessKey_ok_sent:
  assumes "DeleteAccessKey env id' c = ((b, None), c1)"
  shows "sent c1 = sent c @ [deleteRequest c id']"
proof -
  from assms obtain resp where
    m: "MakeRequest env 10 ''DELETE'' (''/access-keys/'' @ id') jsonHeader None c = (Inr resp, c1)"
    by (auto simp add: DeleteAccessKey_def sendDeleteRequest_def split: prod.splits sum.splits)
  from MakeRequest_Inr_sent [OF m] requestFor_delete [of c id'] show ?thesis
    by simp
qed

lemma withoutTraffic_Cons:
  "withoutTraffic m (k # keys) =
     (if lookup_ok m (Id' k) then withoutTraffic m keys else k # withoutTraffic m keys)"
  by (simp add: withoutTraffic_def)

lemma loop_sent:
  "\<exists>n \<le> length (withoutTraffic (transferredDataCache c) keys).
     sent (snd (DeleteAllKeysWithOutTraffic_loop env keys c)) =
       sent c @ map (\<lambda>k. deleteRequest c (Id' k))
                  (take n (withoutTraffic (transferredDataCache c) keys)) \<and>
     (fst (DeleteAllKeysWithOutTraffic_loop env keys c) = (True, None) \<and>
        n = length (withoutTraffic (transferredDataCache c) keys) \<or>
      (\<exists>e. fst (DeleteAllKeysWithOutTraffic_loop env keys c) = (False, Some e)))"
proof (induction keys arbitrary: c)
  case Nil
  show ?case by (simp add: withoutTraffic_def)
next
  case (Cons k keys)
  show ?case
  proof (cases "lookup_ok (transferredDataCache c) (Id' k)")
    case True
    with Cons.IH [of c] show ?thesis by (simp add: withoutTraffic_Cons)
  next
    case False
    let ?cands = "withoutTraffic (transferredDataCache c) keys"
    obtain b err c1 where d: "DeleteAccessKey env (Id' k) c = ((b, err), c1)"
      by (metis surj_pair)
    show ?thesis
    proof (cases err)
      case (Some e)
      from DeleteAccessKey_sent [of env "Id' k" c] d
      have "sent c1 = sent c \<or> sent c1 = sent c @ [deleteRequest c (Id' k)]"
        by (simp split: if_splits)
      then show ?thesis
      proof
        assume "sent c1 = sent c"
        with False d Some show ?thesis
          by (intro exI [of _ 0]) (simp add: withoutTraffic_Cons)
      next
        assume "sent c1 = sent c @ [deleteRequest c (Id' k)]"
        with False d Some show ?thesis
          by (intro exI [of _ 1]) (simp add: withoutTraffic_Cons)
      qed
    next
      case None
      from d None have s1: "sent c1 = sent c @ [deleteRequest c (Id' k)]"
        by (simp add: DeleteAccessKey_ok_sent)
      from DeleteAccessKey_caches [of env "Id' k" c] d
      have p: "transferredDataCache c1 = transferredDataCache c" "ApiUrl c1 = ApiUrl c"
        by simp_all
      from p have dr: "\<And>id'. deleteRequest c1 id' = deleteRequest c id'"
        by (simp add: deleteRequest_def)
      from Cons.IH [of c1] p obtain n where
        n: "n \<le> length ?cands"
        "sent (snd (DeleteAllKeysWithOutTraffic_loop env keys c1)) =
           sent c1 @ map (\<lambda>k. deleteRequest c (Id' k)) (take n ?cands)"
        "fst (DeleteAllKeysWithOutTraffic_loop env keys c1) = (True, None) \<and> n = length ?cands \<or>
         (\<exists>e. fst (DeleteAllKeysWithOutTraffic_loop env keys c1) = (False, Some e))"
        by (auto simp add: dr)
      from False d None have l: "DeleteAllKeysWithOutTraffic_loop env (k # keys) c =
          DeleteAllKeysWithOutTraffic_loop env keys c1"
        by simp
      from n s1 False show ?thesis
        unfolding l by (intro exI [of _ "Suc n"]) (simp add: withoutTraffic_Cons)
    qed
  qed
qed

lemma loop_append:
  "fst (DeleteAllKeysWithOutTraffic_loop env pre c) = (True, None) \<Longrightarrow>
   DeleteAllKeysWithOutTraffic_loop env (pre @ rest) c =
     DeleteAllKeysWithOutTraffic_loop env rest (snd (DeleteAllKeysWithOutTraffic_loop env pre c))"
proof (induction pre arbitrary: c)
  case Nil
  show ?case by simp
next
  case (Cons k pre)
  show ?case
  proof (cases "lookup_ok (transferredDataCache c) (Id' k)")
    case True
    with Cons.prems Cons.IH [of c] show ?thesis by simp
  next
    case False
    obtain b err c1 where d: "DeleteAccessKey env (Id' k) c = ((b, err), c1)"
      by (metis surj_pair)
    show ?thesis
    proof (cases err)
      case (Some e)
      with False d Cons.prems show ?thesis by simp
    next
      case None
      with False d Cons.prems Cons.IH [of c1] show ?thesis by simp
    qed
  qed
qed


lemma DeleteAllKeysWithOutTraffic_populated:
  assumes "fillTransferredDataCache env c = (None, c1)"
    and "fillAccessKeysCache env c1 = (None, c2)"
  shows "DeleteAllKeysWithOutTraffic env c =
           DeleteAllKeysWithOutTraffic_loop env (accessKeysCache c2) c2"
    and "ApiUrl c2 = ApiUrl c"
proof -
  from assms show "DeleteAllKeysWithOutTraffic env c =
      DeleteAllKeysWithOutTraffic_loop env (accessKeysCache c2) c2"
    by (simp add: DeleteAllKeysWithOutTraffic_def)
  from fillTransferredDataCache_other(2) [of env c] fillAccessKeysCache_other(2) [of env c1] assms
  show "ApiUrl c2 = ApiUrl c" by simp
qed


lemma transferred_phase:
  assumes "if transferredDataCache c = None
           then DataTransferredAccessKey env c = ((transfer, None), ct) \<and>
                c1 = ct\<lparr>transferredDataCache := BytesTransferredByUserId transfer\<rparr>
           else c1 = c"
  shows "fillTransferredDataCache env c = (None, c1)"
    and "sent c1 = sent c @ (if transferredDataCache c = None then [transferRequest c] else [])"
    and "ApiUrl c1 = ApiUrl c"
    and "accessKeysCache c1 = accessKeysCache c"
    and "transferredDataCache c1 =
           (if transferredDataCache c = None then BytesTransferredByUserId transfer
            else transferredDataCache c)"
proof -
  show "fillTransferredDataCache env c = (None, c1)"
    using assms by (auto simp add: fillTransferredDataCache_def split: if_splits)
  show "sent c1 = sent c @ (if transferredDataCache c = None then [transferRequest c] else [])"
    using assms DataTransferredAccessKey_ok [of env c transfer ct]
    by (auto split: if_splits)
  show "ApiUrl c1 = ApiUrl c"
    using assms DataTransferredAccessKey_caches(3) [of env c] by (auto split: if_splits)
  show "accessKeysCache c1 = accessKeysCache c"
    using assms DataTransferredAccessKey_caches(1) [of env c] by (auto split: if_splits)
  show "transferredDataCache c1 =
      (if transferredDataCache c = None then BytesTransferredByUserId transfer
       else transferredDataCache c)"
    using assms by (auto split: if_splits)
qed

lemma keys_phase:
  assumes "if accessKeysCache c1 = []
           then GetListAccessKeys env c1 = ((listed, None), ck) \<and>
                c2 = ck\<lparr>accessKeysCache := AccessKeys listed\<rparr>
           else c2 = c1"
  shows "fillAccessKeysCache env c1 = (None, c2)"
    and "sent c2 = sent c1 @ (if accessKeysCache c1 = [] then [listRequest c1] else [])"
    and "ApiUrl c2 = ApiUrl c1"
    and "transferredDataCache c2 = transferredDataCache c1"
    and "accessKeysCache c2 =
           (if accessKeysCache c1 = [] then AccessKeys listed else accessKeysCache c1)"
proof -
  show "fillAccessKeysCache env c1 = (None, c2)"
    using assms by (auto simp add: fillAccessKeysCache_def split: if_splits)
  show "sent c2 = sent c1 @ (if accessKeysCache c1 = [] then [listRequest c1] else [])"
    using assms GetListAccessKeys_ok(1) [of env c1 listed ck] by (auto split: if_splits)
  show "ApiUrl c2 = ApiUrl c1"
    using assms GetListAccessKeys_ok(4) [of env c1 listed ck] by (auto split: if_splits)
  show "transferredDataCache c2 = transferredDataCache c1"
    using assms GetListAccessKeys_ok(3) [of env c1 listed ck] by (auto split: if_splits)
  show "accessKeysCache c2 =
      (if accessKeysCache c1 = [] then AccessKeys listed else accessKeysCache c1)"
    using assms by (auto split: if_splits)
qed

lemma transferred_phase_fails:
  "transferredDataCache c = None \<Longrightarrow>
   DataTransferredAccessKey env c = ((transfer, Some err), ct) \<Longrightarrow>
   DeleteAllKeysWithOutTraffic env c = ((False, Some err), ct)"
  by (simp add: DeleteAllKeysWithOutTraffic_def fillTransferredDataCache_def)

lemma keys_phase_fails:
  "fillTransferredDataCache env c = (None, c1) \<Longrightarrow> accessKeysCache c1 = [] \<Longrightarrow>
   GetListAccessKeys env c1 = ((listed, Some err), ck) \<Longrightarrow>
   DeleteAllKeysWithOutTraffic env c = ((False, Some err), ck)"
  by (simp add: DeleteAllKeysWithOutTraffic_def fillAccessKeysCache_def)

lemma loop_True_iff:
  "fst (DeleteAllKeysWithOutTraffic_loop env keys c) = (True, None) \<longleftrightarrow>
     (\<forall>r \<in> set (deleteResults env (map Id' (withoutTraffic (transferredDataCache c) keys)) c).
        snd r = None)"
proof (induction keys arbitrary: c)
  case Nil
  show ?case by (simp add: withoutTraffic_def)
next
  case (Cons k keys)
  show ?case
  proof (cases "lookup_ok (transferredDataCache c) (Id' k)")
    case True
    with Cons.IH [of c] show ?thesis by (simp add: withoutTraffic_Cons)
  next
    case False
    obtain b err c1 where d: "DeleteAccessKey env (Id' k) c = ((b, err), c1)"
      by (metis surj_pair)
    from DeleteAccessKey_caches [of env "Id' k" c] d
    have p: "transferredDataCache c1 = transferredDataCache c" by simp
    show ?thesis
    proof (cases err)
      case (Some e)
      with False d show ?thesis by (simp add: withoutTraffic_Cons)
    next
      case None
      with False d p Cons.IH [of c1] show ?thesis by (simp add: withoutTraffic_Cons)
    qed
  qed
qed

lemma DeleteAllKeysWithOutTraffic_run:
  assumes "fillTransferredDataCache env c = (None, c1)"
    and "fillAccessKeysCache env c1 = (None, c2)"
  shows "\<exists>n \<le> length (withoutTraffic (transferredDataCache c2) (accessKeysCache c2)).
           sent (snd (DeleteAllKeysWithOutTraffic env c)) =
             sent c2 @ map (\<lambda>k. deleteRequest c (Id' k))
               (take n (withoutTraffic (transferredDataCache c2) (accessKeysCache c2)))"
    and "fst (DeleteAllKeysWithOutTraffic env c) = (True, None) \<longrightarrow>
           sent (snd (DeleteAllKeysWithOutTraffic env c)) =
             sent c2 @ map (\<lambda>k. deleteRequest c (Id' k))
               (withoutTraffic (transferredDataCache c2) (accessKeysCache c2))"
    and "fst (DeleteAllKeysWithOutTraffic env c) = (True, None) \<or>
           (\<exists>e. fst (DeleteAllKeysWithOutTraffic env c) = (False, Some e))"
    and "fst (DeleteAllKeysWithOutTraffic env c) = (True, None) \<longleftrightarrow>
           (\<forall>r \<in> set (deleteResults env
                         (map Id' (withoutTraffic (transferredDataCache c2) (accessKeysCache c2)))
                         c2).
              snd r = None)"
    and "transferredDataCache (snd (DeleteAllKeysWithOutTraffic env c)) = transferredDataCache c2"
    and "accessKeysCache (snd (DeleteAllKeysWithOutTraffic env c)) = accessKeysCache c2"
proof -
  let ?D = "DeleteAllKeysWithOutTraffic env c"
  let ?td = "transferredDataCache c2"
  let ?del = "\<lambda>k. deleteRequest c (Id' k)"
  note pop = DeleteAllKeysWithOutTraffic_populated [OF assms]
  from pop(2) have dr: "\<And>id'. deleteRequest c2 id' = deleteRequest c id'"
    by (simp add: deleteRequest_def)
  from loop_sent [of c2 "accessKeysCache c2" env] obtain n where
    n: "n \<le> length (withoutTraffic ?td (accessKeysCache c2))"
    "sent (snd ?D) = sent c2 @ map ?del (take n (withoutTraffic ?td (accessKeysCache c2)))"
    "fst ?D = (True, None) \<and> n = length (withoutTraffic ?td (accessKeysCache c2)) \<or>
     (\<exists>e. fst ?D = (False, Some e))"
    unfolding pop(1) dr by blast
  from n(1,2) show "\<exists>n \<le> length (withoutTraffic ?td (accessKeysCache c2)).
      sent (snd ?D) = sent c2 @ map ?del (take n (withoutTraffic ?td (accessKeysCache c2)))"
    by blast
  from n(2,3) show "fst ?D = (True, None) \<longrightarrow>
      sent (snd ?D) = sent c2 @ map ?del (withoutTraffic ?td (accessKeysCache c2))"
    by auto
  from n(3) show "fst ?D = (True, None) \<or> (\<exists>e. fst ?D = (False, Some e))"
    by auto
  from loop_True_iff [of env "accessKeysCache c2" c2]
  show "fst ?D = (True, None) \<longleftrightarrow>
      (\<forall>r \<in> set (deleteResults env (map Id' (withoutTraffic ?td (accessKeysCache c2))) c2).
         snd r = None)"
    unfolding pop(1) .
  from loop_caches [of env "accessKeysCache c2" c2]
  show "transferredDataCache (snd ?D) = ?td" and "accessKeysCache (snd ?D) = accessKeysCache c2"
    unfolding pop(1) by simp_all
qed

lemma DeleteAllKeysWithOutTraffic_first_failure:
  assumes "fillTransferredDataCache env c = (None, c1)"
    and "fillAccessKeysCache env c1 = (None, c2)"
    and "accessKeysCache c2 = pre @ k # post"
    and "DeleteAllKeysWithOutTraffic_loop env pre c2 = ((True, None), c3)"
    and "\<not> lookup_ok (transferredDataCache c2) (Id' k)"
    and "DeleteAccessKey env (Id' k) c3 = ((b, Some e), c4)"
  shows "DeleteAllKeysWithOutTraffic env c = ((False, Some e), c4)"
    and "sent c3 = sent c2 @ map (\<lambda>k. deleteRequest c (Id' k))
                             (withoutTraffic (transferredDataCache c2) pre)"
    and "sent c4 = sent c3 \<or> sent c4 = sent c3 @ [deleteRequest c (Id' k)]"
proof -
  let ?D = "DeleteAllKeysWithOutTraffic env c"
  let ?td = "transferredDataCache c2"
  let ?del = "\<lambda>k. deleteRequest c (Id' k)"
  note pop = DeleteAllKeysWithOutTraffic_populated [OF assms(1,2)]
  from pop(2) have dr: "\<And>id'. deleteRequest c2 id' = deleteRequest c id'"
    by (simp add: deleteRequest_def)
  note l = assms(4)
  from loop_caches [of env pre c2] l
  have p3: "transferredDataCache c3 = ?td" "ApiUrl c3 = ApiUrl c2" by simp_all
  from l loop_append [of env pre c2 "k # post"]
  have "DeleteAllKeysWithOutTraffic_loop env (pre @ k # post) c2 =
      DeleteAllKeysWithOutTraffic_loop env (k # post) c3"
    by simp
  with assms(3,5,6) p3 show "?D = ((False, Some e), c4)"
    unfolding pop(1) by simp
  from loop_sent [of c2 pre env] l
  show "sent c3 = sent c2 @ map ?del (withoutTraffic ?td pre)"
    unfolding dr by auto
  from p3 pop(2) have "deleteRequest c3 (Id' k) = deleteRequest c (Id' k)"
    by (simp add: deleteRequest_def)
  with DeleteAccessKey_sent [of env "Id' k" c3] assms(6)
  show "sent c4 = sent c3 \<or> sent c4 = sent c3 @ [deleteRequest c (Id' k)]"
    by (simp split: if_splits)
qed

lemmas run_simps = DeleteAllKeysWithOutTraffic_def fillTransferredDataCache_def
  fillAccessKeysCache_def DeleteAccessKey_def sendDeleteRequest_def MakeRequest_def
  NewRequestWithContext_def lookup_ok_def issued_def deleteRequest_def keyOf_def
  zeroAccessKey_def respondFailB_def clientABC_def clientZeroBytes_def withoutTraffic_def

lemmas fetch_simps = DataTransferredAccessKey_def GetListAccessKeys_def MakeRequest_def
  NewRequestWithContext_def parseJSONFromReader_def respondABC_def flakyEnv_def
  transferRequest_def listRequest_def zeroTransferData_def zeroAccessKeysResponse_def

text \<open>
  C2. \<open>DeleteAllKeysWithOutTraffic\<close> first populates both caches if needed: with a nil
  transferred-data cache it calls \<open>DataTransferredAccessKey\<close>, then with an empty
  access-key cache it calls \<open>GetListAccessKeys\<close>; an error of either call ends the
  method with false and that error. When neither fails, the caches of the client hold
  what the calls returned (or what was there before), and they are the caches of the
  client after the method. Call the keys of that access-key cache whose id that
  transferred-data mapping lacks the candidates. All the method hands to the transport
  is the fetches that were needed, followed by the delete requests of an initial segment
  of the candidates, in cache order, one for each: no request for a key whose id is in
  the mapping. It returns true with no error or false with an error; when it returns true
  the segment is all the candidates; and it returns true exactly when none of the delete
  calls for the candidates, made one after another, returns an error. When the keys
  before a candidate were handled without error and the delete of that candidate fails,
  the method returns false with that very error and the client is the one that failing
  delete left: nothing is attempted for the keys after it and nothing is undone. For the
  keys a, b, c and the mapping holding a this gives the requests for b and c, and the
  request for b alone when the delete of b fails.
\<close>

theorem DeleteAllKeysWithOutTraffic_deletes:
  "(transferredDataCache c = None \<and>
    DataTransferredAccessKey env c = ((transfer, Some err), ct) \<longrightarrow>
      DeleteAllKeysWithOutTraffic env c = ((False, Some err), ct))
   \<and> ((if transferredDataCache c = None
        then DataTransferredAccessKey env c = ((transfer, None), ct) \<and>
             c1 = ct\<lparr>transferredDataCache := BytesTransferredByUserId transfer\<rparr>
        else c1 = c) \<and>
       accessKeysCache c1 = [] \<and> GetListAccessKeys env c1 = ((listed, Some err), ck) \<longrightarrow>
      DeleteAllKeysWithOutTraffic env c = ((False, Some err), ck))
   \<and> ((if transferredDataCache c = None
        then DataTransferredAccessKey env c = ((transfer, None), ct) \<and>
             c1 = ct\<lparr>transferredDataCache := BytesTransferredByUserId transfer\<rparr>
        else c1 = c) \<and>
       (if accessKeysCache c1 = []
        then GetListAccessKeys env c1 = ((listed, None), ck) \<and>
             c2 = ck\<lparr>accessKeysCache := AccessKeys listed\<rparr>
        else c2 = c1) \<longrightarrow>
      transferredDataCache c2 =
        (if transferredDataCache c = None then BytesTransferredByUserId transfer
         else transferredDataCache c)
      \<and> accessKeysCache c2 =
          (if accessKeysCache c = [] then AccessKeys listed else accessKeysCache c)
      \<and> transferredDataCache (snd (DeleteAllKeysWithOutTraffic env c)) = transferredDataCache c2
      \<and> accessKeysCache (snd (DeleteAllKeysWithOutTraffic env c)) = accessKeysCache c2
      \<and> (\<exists>n \<le> length (withoutTraffic (transferredDataCache c2) (accessKeysCache c2)).
            issued c (snd (DeleteAllKeysWithOutTraffic env c)) =
              (if transferredDataCache c = None then [transferRequest c] else []) @
              (if accessKeysCache c = [] then [listRequest c] else []) @
              map (\<lambda>k. deleteRequest c (Id' k))
                (take n (withoutTraffic (transferredDataCache c2) (accessKeysCache c2))))
      \<and> (fst (DeleteAllKeysWithOutTraffic env c) = (True, None) \<longrightarrow>
            issued c (snd (DeleteAllKeysWithOutTraffic env c)) =
              (if transferredDataCache c = None then [transferRequest c] else []) @
              (if accessKeysCache c = [] then [listRequest c] else []) @
              map (\<lambda>k. deleteRequest c (Id' k))
                (withoutTraffic (transferredDataCache c2) (accessKeysCache c2)))
      \<and> (fst (DeleteAllKeysWithOutTraffic env c) = (True, None) \<or>
            (\<exists>e. fst (DeleteAllKeysWithOutTraffic env c) = (False, Some e)))
      \<and> (fst (DeleteAllKeysWithOutTraffic env c) = (True, None) \<longleftrightarrow>
            (\<forall>r \<in> set (deleteResults env
                          (map Id' (withoutTraffic (transferredDataCache c2) (accessKeysCache c2)))
                          c2).
               snd r = None))
      \<and> (accessKeysCache c2 = pre @ k # post \<and>
          DeleteAllKeysWithOutTraffic_loop env pre c2 = ((True, None), c3) \<and>
          \<not> lookup_ok (transferredDataCache c2) (Id' k) \<and>
          DeleteAccessKey env (Id' k) c3 = ((b, Some e), c4) \<longrightarrow>
            DeleteAllKeysWithOutTraffic env c = ((False, Some e), c4) \<and>
            issued c2 c3 =
              map (\<lambda>k. deleteRequest c (Id' k)) (withoutTraffic (transferredDataCache c2) pre) \<and>
            (sent c4 = sent c3 \<or> sent c4 = sent c3 @ [deleteRequest c (Id' k)])))"
proof -
  let ?D = "DeleteAllKeysWithOutTraffic env c"
  let ?TF = "if transferredDataCache c = None
        then DataTransferredAccessKey env c = ((transfer, None), ct) \<and>
             c1 = ct\<lparr>transferredDataCache := BytesTransferredByUserId transfer\<rparr>
        else c1 = c"
  let ?KF = "if accessKeysCache c1 = []
        then GetListAccessKeys env c1 = ((listed, None), ck) \<and>
             c2 = ck\<lparr>accessKeysCache := AccessKeys listed\<rparr>
        else c2 = c1"
  let ?cands = "withoutTraffic (transferredDataCache c2) (accessKeysCache c2)"
  let ?del = "\<lambda>k. deleteRequest c (Id' k)"
  let ?pt = "if transferredDataCache c = None then [transferRequest c] else []"
  let ?pk = "if accessKeysCache c = [] then [listRequest c] else []"
  have f1: "transferredDataCache c = None \<and>
      DataTransferredAccessKey env c = ((transfer, Some err), ct) \<longrightarrow>
      ?D = ((False, Some err), ct)"
    by (simp add: transferred_phase_fails)
  have f2: "?TF \<and> accessKeysCache c1 = [] \<and>
      GetListAccessKeys env c1 = ((listed, Some err), ck) \<longrightarrow> ?D = ((False, Some err), ck)"
  proof
    assume h: "?TF \<and> accessKeysCache c1 = [] \<and>
      GetListAccessKeys env c1 = ((listed, Some err), ck)"
    then have tf: ?TF by blast
    from transferred_phase(1) [OF tf] h show "?D = ((False, Some err), ck)"
      by (simp add: keys_phase_fails)
  qed
  have m: "?TF \<and> ?KF \<longrightarrow>
      transferredDataCache c2 =
        (if transferredDataCache c = None then BytesTransferredByUserId transfer
         else transferredDataCache c)
      \<and> accessKeysCache c2 =
          (if accessKeysCache c = [] then AccessKeys listed else accessKeysCache c)
      \<and> transferredDataCache (snd ?D) = transferredDataCache c2
      \<and> accessKeysCache (snd ?D) = accessKeysCache c2
      \<and> (\<exists>n \<le> length ?cands. issued c (snd ?D) = ?pt @ ?pk @ map ?del (take n ?cands))
      \<and> (fst ?D = (True, None) \<longrightarrow> issued c (snd ?D) = ?pt @ ?pk @ map ?del ?cands)
      \<and> (fst ?D = (True, None) \<or> (\<exists>e. fst ?D = (False, Some e)))
      \<and> (fst ?D = (True, None) \<longleftrightarrow>
            (\<forall>r \<in> set (deleteResults env (map Id' ?cands) c2). snd r = None))
      \<and> (accessKeysCache c2 = pre @ k # post \<and>
          DeleteAllKeysWithOutTraffic_loop env pre c2 = ((True, None), c3) \<and>
          \<not> lookup_ok (transferredDataCache c2) (Id' k) \<and>
          DeleteAccessKey env (Id' k) c3 = ((b, Some e), c4) \<longrightarrow>
            ?D = ((False, Some e), c4) \<and>
            issued c2 c3 = map ?del (withoutTraffic (transferredDataCache c2) pre) \<and>
            (sent c4 = sent c3 \<or> sent c4 = sent c3 @ [deleteRequest c (Id' k)]))"
  proof
    assume h: "?TF \<and> ?KF"
    then have tf: ?TF and kf: ?KF by blast+
    note t = transferred_phase [OF tf]
    note k = keys_phase [OF kf]
    note run = DeleteAllKeysWithOutTraffic_run [OF t(1) k(1)]
    from t(3) have lr: "listRequest c1 = listRequest c" by (simp add: listRequest_def)
    from t(2,4) k(2) lr have s2: "sent c2 = sent c @ ?pt @ ?pk" by simp
    from t(5) k(4) have a1: "transferredDataCache c2 =
        (if transferredDataCache c = None then BytesTransferredByUserId transfer
         else transferredDataCache c)"
      by simp
    from t(4) k(5) have a2: "accessKeysCache c2 =
        (if accessKeysCache c = [] then AccessKeys listed else accessKeysCache c)"
      by simp
    from run(1) obtain n where n: "n \<le> length ?cands"
      "sent (snd ?D) = sent c2 @ map ?del (take n ?cands)"
      by blast
    from n(2) s2 have "sent (snd ?D) = sent c @ (?pt @ ?pk @ map ?del (take n ?cands))" by simp
    then have "issued c (snd ?D) = ?pt @ ?pk @ map ?del (take n ?cands)" by (rule issued_append)
    with n(1) have a3: "\<exists>n \<le> length ?cands. issued c (snd ?D) = ?pt @ ?pk @ map ?del (take n ?cands)"
      by blast
    have a4: "fst ?D = (True, None) \<longrightarrow> issued c (snd ?D) = ?pt @ ?pk @ map ?del ?cands"
    proof
      assume "fst ?D = (True, None)"
      with run(2) s2 have "sent (snd ?D) = sent c @ (?pt @ ?pk @ map ?del ?cands)" by simp
      then show "issued c (snd ?D) = ?pt @ ?pk @ map ?del ?cands" by (rule issued_append)
    qed
    have a5: "accessKeysCache c2 = pre @ k # post \<and>
          DeleteAllKeysWithOutTraffic_loop env pre c2 = ((True, None), c3) \<and>
          \<not> lookup_ok (transferredDataCache c2) (Id' k) \<and>
          DeleteAccessKey env (Id' k) c3 = ((b, Some e), c4) \<longrightarrow>
            ?D = ((False, Some e), c4) \<and>
            issued c2 c3 = map ?del (withoutTraffic (transferredDataCache c2) pre) \<and>
            (sent c4 = sent c3 \<or> sent c4 = sent c3 @ [deleteRequest c (Id' k)])"
    proof
      assume g: "accessKeysCache c2 = pre @ k # post \<and>
          DeleteAllKeysWithOutTraffic_loop env pre c2 = ((True, None), c3) \<and>
          \<not> lookup_ok (transferredDataCache c2) (Id' k) \<and>
          DeleteAccessKey env (Id' k) c3 = ((b, Some e), c4)"
      then have g1: "accessKeysCache c2 = pre @ k # post"
        and g2: "DeleteAllKeysWithOutTraffic_loop env pre c2 = ((True, None), c3)"
        and g3: "\<not> lookup_ok (transferredDataCache c2) (Id' k)"
        and g4: "DeleteAccessKey env (Id' k) c3 = ((b, Some e), c4)"
        by blast+
      note ff = DeleteAllKeysWithOutTraffic_first_failure [OF t(1) k(1) g1 g2 g3 g4]
      from ff(2) have "issued c2 c3 = map ?del (withoutTraffic (transferredDataCache c2) pre)"
        by (rule issued_append)
      with ff(1,3) show "?D = ((False, Some e), c4) \<and>
            issued c2 c3 = map ?del (withoutTraffic (transferredDataCache c2) pre) \<and>
            (sent c4 = sent c3 \<or> sent c4 = sent c3 @ [deleteRequest c (Id' k)])"
        by blast
    qed
    note a6 = run(5) and a7 = run(6) and a8 = run(3) and a9 = run(4)
    show "transferredDataCache c2 =
        (if transferredDataCache c = None then BytesTransferredByUserId transfer
         else transferredDataCache c)
      \<and> accessKeysCache c2 =
          (if accessKeysCache c = [] then AccessKeys listed else accessKeysCache c)
      \<and> transferredDataCache (snd ?D) = transferredDataCache c2
      \<and> accessKeysCache (snd ?D) = accessKeysCache c2
      \<and> (\<exists>n \<le> length ?cands. issued c (snd ?D) = ?pt @ ?pk @ map ?del (take n ?cands))
      \<and> (fst ?D = (True, None) \<longrightarrow> issued c (snd ?D) = ?pt @ ?pk @ map ?del ?cands)
      \<and> (fst ?D = (True, None) \<or> (\<exists>e. fst ?D = (False, Some e)))
      \<and> (fst ?D = (True, None) \<longleftrightarrow>
            (\<forall>r \<in> set (deleteResults env (map Id' ?cands) c2). snd r = None))
      \<and> (accessKeysCache c2 = pre @ k # post \<and>
          DeleteAllKeysWithOutTraffic_loop env pre c2 = ((True, None), c3) \<and>
          \<not> lookup_ok (transferredDataCache c2) (Id' k) \<and>
          DeleteAccessKey env (Id' k) c3 = ((b, Some e), c4) \<longrightarrow>
            ?D = ((False, Some e), c4) \<and>
            issued c2 c3 = map ?del (withoutTraffic (transferredDataCache c2) pre) \<and>
            (sent c4 = sent c3 \<or> sent c4 = sent c3 @ [deleteRequest c (Id' k)]))"
      by (intro conjI; fact)
  qed
  show ?thesis by (intro conjI; fact)
qed

theorem DeleteAllKeysWithOutTraffic_deletes_witness:
  "fst (DeleteAllKeysWithOutTraffic (mockEnv (respondABC (respondWith 204 []))) client0) =
     (True, None)
   \<and> issued client0
       (snd (DeleteAllKeysWithOutTraffic (mockEnv (respondABC (respondWith 204 []))) client0)) =
     [transferRequest client0, listRequest client0,
      deleteRequest client0 ''b'', deleteRequest client0 ''c'']
   \<and> accessKeysCache
       (snd (DeleteAllKeysWithOutTraffic (mockEnv (respondABC (respondWith 204 []))) client0)) =
     [keyOf ''a'', keyOf ''b'', keyOf ''c'']
   \<and> fst (DeleteAllKeysWithOutTraffic (mockEnv (respondABC respondFailB)) client0) =
     (False, Some (FailedToSendDELETE (FailedToExecuteRequest (External ''connection reset''))))
   \<and> sent (snd (DeleteAllKeysWithOutTraffic (mockEnv (respondABC respondFailB)) client0)) =
     [transferRequest client0, listRequest client0, deleteRequest client0 ''b'']
   \<and> fst (DeleteAllKeysWithOutTraffic (mockEnv (respondWith 204 [])) clientABC) = (True, None)
   \<and> issued clientABC (snd (DeleteAllKeysWithOutTraffic (mockEnv (respondWith 204 [])) clientABC)) =
       [deleteRequest clientABC ''b'', deleteRequest clientABC ''c'']
   \<and> DeleteAllKeysWithOutTraffic (mockEnv respondFailB) clientABC =
       ((False, Some (FailedToSendDELETE (FailedToExecuteRequest (External ''connection reset'')))),
        clientABC\<lparr>httpClient := 1, sent := [deleteRequest clientABC ''b'']\<rparr>)"
proof -
  let ?ok = "mockEnv (respondABC (respondWith 204 []))"
  let ?bad = "mockEnv (respondABC respondFailB)"
  let ?e = "FailedToSendDELETE (FailedToExecuteRequest (External ''connection reset''))"
  let ?m = "Some (fmap_of_list [(''a'', 100 :: 64 word)])"
  let ?keys = "[keyOf ''a'', keyOf ''b'', keyOf ''c'']"
  let ?tr = "\<lparr>BytesTransferredByUserId = ?m\<rparr>"
  let ?li = "\<lparr>AccessKeys = ?keys\<rparr>"
  let ?ct = "client0\<lparr>httpClient := 1, sent := [transferRequest client0]\<rparr>"
  let ?c1 = "?ct\<lparr>transferredDataCache := ?m\<rparr>"
  let ?ck = "?c1\<lparr>httpClient := 2, sent := [transferRequest client0, listRequest client0]\<rparr>"
  let ?c2 = "?ck\<lparr>accessKeysCache := ?keys\<rparr>"
  let ?c4 = "?c2\<lparr>httpClient := 3,
      sent := [transferRequest client0, listRequest client0, deleteRequest client0 ''b'']\<rparr>"
  have tf: "if transferredDataCache client0 = None
      then DataTransferredAccessKey env client0 = ((?tr, None), ?ct) \<and>
           ?c1 = ?ct\<lparr>transferredDataCache := BytesTransferredByUserId ?tr\<rparr>
      else ?c1 = client0"
    if "env = ?ok \<or> env = ?bad" for env
    using that by (auto simp add: fetch_simps mock_simps)
  have kf: "if accessKeysCache ?c1 = []
      then GetListAccessKeys env ?c1 = ((?li, None), ?ck) \<and>
           ?c2 = ?ck\<lparr>accessKeysCache := AccessKeys ?li\<rparr>
      else ?c2 = ?c1"
    if "env = ?ok \<or> env = ?bad" for env
    using that by (auto simp add: fetch_simps mock_simps)
  have cands: "withoutTraffic (transferredDataCache ?c2) (accessKeysCache ?c2) =
      [keyOf ''b'', keyOf ''c'']"
    by (simp add: withoutTraffic_def lookup_ok_def keyOf_def)
  note ok = DeleteAllKeysWithOutTraffic_deletes [where c = client0 and env = ?ok
      and transfer = ?tr and ct = ?ct and ?c1.0 = ?c1 and listed = ?li and ck = ?ck
      and ?c2.0 = ?c2, THEN conjunct2, THEN conjunct2, THEN mp, OF conjI [OF tf kf],
      unfolded cands]
  have "\<forall>r \<in> set (deleteResults ?ok (map Id' [keyOf ''b'', keyOf ''c'']) ?c2). snd r = None"
    by (simp add: run_simps mock_simps respondABC_def)
  with ok have r1: "fst (DeleteAllKeysWithOutTraffic ?ok client0) = (True, None)"
    by blast
  with ok have "issued client0 (snd (DeleteAllKeysWithOutTraffic ?ok client0)) =
      (if transferredDataCache client0 = None then [transferRequest client0] else []) @
      (if accessKeysCache client0 = [] then [listRequest client0] else []) @
      map (\<lambda>k. deleteRequest client0 (Id' k)) [keyOf ''b'', keyOf ''c'']"
    by blast
  then have r2: "issued client0 (snd (DeleteAllKeysWithOutTraffic ?ok client0)) =
      [transferRequest client0, listRequest client0,
       deleteRequest client0 ''b'', deleteRequest client0 ''c'']"
    by (simp add: client0_def keyOf_def)
  from ok have "accessKeysCache (snd (DeleteAllKeysWithOutTraffic ?ok client0)) =
      accessKeysCache ?c2"
    by blast
  then have r3: "accessKeysCache (snd (DeleteAllKeysWithOutTraffic ?ok client0)) = ?keys"
    by simp
  have g1: "accessKeysCache ?c2 = [keyOf ''a''] @ keyOf ''b'' # [keyOf ''c'']"
    by simp
  have g2: "DeleteAllKeysWithOutTraffic_loop ?bad [keyOf ''a''] ?c2 = ((True, None), ?c2)"
    by (simp add: lookup_ok_def keyOf_def)
  have g3: "\<not> lookup_ok (transferredDataCache ?c2) (Id' (keyOf ''b''))"
    by (simp add: lookup_ok_def keyOf_def)
  have g4: "DeleteAccessKey ?bad (Id' (keyOf ''b'')) ?c2 = ((False, Some ?e), ?c4)"
    by (simp add: run_simps mock_simps respondABC_def)
  note bad = DeleteAllKeysWithOutTraffic_deletes [where c = client0 and env = ?bad
      and transfer = ?tr and ct = ?ct and ?c1.0 = ?c1 and listed = ?li and ck = ?ck
      and ?c2.0 = ?c2 and pre = "[keyOf ''a'']" and k = "keyOf ''b''"
      and post = "[keyOf ''c'']" and ?c3.0 = ?c2 and b = False and e = ?e and ?c4.0 = ?c4,
      THEN conjunct2, THEN conjunct2, THEN mp, OF conjI [OF tf kf]]
  from bad g1 g2 g3 g4
  have r4: "DeleteAllKeysWithOutTraffic ?bad client0 = ((False, Some ?e), ?c4)"
    by blast
  let ?ok' = "mockEnv (respondWith 204 [])"
  let ?bad' = "mockEnv respondFailB"
  let ?c4' = "clientABC\<lparr>httpClient := 1, sent := [deleteRequest clientABC ''b'']\<rparr>"
  have tf': "if transferredDataCache clientABC = None
      then DataTransferredAccessKey env clientABC = ((?tr, None), ?ct) \<and>
           clientABC = ?ct\<lparr>transferredDataCache := BytesTransferredByUserId ?tr\<rparr>
      else clientABC = clientABC" for env :: "nat Env"
    by (simp add: clientABC_def)
  have kf': "if accessKeysCache clientABC = []
      then GetListAccessKeys env clientABC = ((?li, None), ?ck) \<and>
           clientABC = ?ck\<lparr>accessKeysCache := AccessKeys ?li\<rparr>
      else clientABC = clientABC" for env :: "nat Env"
    by (simp add: clientABC_def)
  have cands': "withoutTraffic (transferredDataCache clientABC) (accessKeysCache clientABC) =
      [keyOf ''b'', keyOf ''c'']"
    by (simp add: withoutTraffic_def lookup_ok_def keyOf_def clientABC_def)
  note ok' = DeleteAllKeysWithOutTraffic_deletes [where c = clientABC and env = ?ok'
      and transfer = ?tr and ct = ?ct and ?c1.0 = clientABC and listed = ?li and ck = ?ck
      and ?c2.0 = clientABC, THEN conjunct2, THEN conjunct2, THEN mp, OF conjI [OF tf' kf'],
      unfolded cands']
  have "\<forall>r \<in> set (deleteResults ?ok' (map Id' [keyOf ''b'', keyOf ''c'']) clientABC).
      snd r = None"
    by (simp add: run_simps mock_simps)
  with ok' have r5: "fst (DeleteAllKeysWithOutTraffic ?ok' clientABC) = (True, None)"
    by blast
  with ok' have "issued clientABC (snd (DeleteAllKeysWithOutTraffic ?ok' clientABC)) =
      (if transferredDataCache clientABC = None then [transferRequest clientABC] else []) @
      (if accessKeysCache clientABC = [] then [listRequest clientABC] else []) @
      map (\<lambda>k. deleteRequest clientABC (Id' k)) [keyOf ''b'', keyOf ''c'']"
    by blast
  then have r6: "issued clientABC (snd (DeleteAllKeysWithOutTraffic ?ok' clientABC)) =
      [deleteRequest clientABC ''b'', deleteRequest clientABC ''c'']"
    by (simp add: clientABC_def keyOf_def)
  have h1: "accessKeysCache clientABC = [keyOf ''a''] @ keyOf ''b'' # [keyOf ''c'']"
    by (simp add: clientABC_def)
  have h2: "DeleteAllKeysWithOutTraffic_loop ?bad' [keyOf ''a''] clientABC =
      ((True, None), clientABC)"
    by (simp add: run_simps mock_simps)
  have h3: "\<not> lookup_ok (transferredDataCache clientABC) (Id' (keyOf ''b''))"
    by (simp add: run_simps mock_simps)
  have h4: "DeleteAccessKey ?bad' (Id' (keyOf ''b'')) clientABC = ((False, Some ?e), ?c4')"
    by (simp add: run_simps mock_simps)
  note bad' = DeleteAllKeysWithOutTraffic_deletes [where c = clientABC and env = ?bad'
      and transfer = ?tr and ct = ?ct and ?c1.0 = clientABC and listed = ?li and ck = ?ck
      and ?c2.0 = clientABC and pre = "[keyOf ''a'']" and k = "keyOf ''b''"
      and post = "[keyOf ''c'']" and ?c3.0 = clientABC and b = False and e = ?e
      and ?c4.0 = ?c4',
      THEN conjunct2, THEN conjunct2, THEN mp, OF conjI [OF tf' kf']]
  from bad' h1 h2 h3 h4
  have r7: "DeleteAllKeysWithOutTraffic ?bad' clientABC = ((False, Some ?e), ?c4')"
    by blast
  from r1 r2 r3 r4 r5 r6 r7 show ?thesis by simp
qed

lemma loop_ok_sent:
  assumes "fst (DeleteAllKeysWithOutTraffic_loop env keys c) = (True, None)"
  shows "sent (snd (DeleteAllKeysWithOutTraffic_loop env keys c)) =
           sent c @ map (\<lambda>k. deleteRequest c (Id' k))
                      (withoutTraffic (transferredDataCache c) keys)"
  using loop_sent [of c keys env] assms by auto





lemma deleteResults_zip:
  "deleteResults env ids c =
     map (\<lambda>x. fst (DeleteAccessKey env (fst x) (snd x))) (zip ids (deleteStates env ids c))"
  by (induction ids arbitrary: c) simp_all

lemma DeleteAccessKey_2xx_not_204:
  assumes "NewRequestErr env ''DELETE'' (ApiUrl c @ ''/access-keys/'' @ id') = None"
    and "fst (Do env (httpClient c) (deleteRequest c id')) = Inr resp"
    and "200 \<le> StatusCode resp" and "StatusCode resp < 300" and "StatusCode resp \<noteq> 204"
  shows "fst (DeleteAccessKey env id' c) = (False, None)"
  using assms sendDeleteRequest_sends [of env c "''/access-keys/'' @ id'" resp]
    requestFor_delete [of c id']
  by (simp add: DeleteAccessKey_def)

text \<open>
  C9. In \<open>DeleteAllKeysWithOutTraffic\<close> only an error of a delete call ends the loop.
  Let the caches be populated, by this call if needed, and take the delete calls for the
  keys without traffic as the run makes them, one after another, each on the client the
  call before it left. When none of these calls returns an error, the method returns
  true and nil and has sent, after the fetches it needed, the delete request of every
  such key, whatever booleans the calls returned. In particular, when each of these
  calls is answered with a 2xx status other than 204, every one of them returns false
  with a nil error and the method still returns true and nil. A single delete answered
  with such a status makes \<open>DeleteAccessKey\<close> return false with a nil error, and after
  such a result the loop goes on with the remaining keys.
\<close>

theorem DeleteAllKeysWithOutTraffic_drops_boolean:
  assumes "if transferredDataCache c = None
           then DataTransferredAccessKey env c = ((transfer, None), ct) \<and>
                c1 = ct\<lparr>transferredDataCache := BytesTransferredByUserId transfer\<rparr>
           else c1 = c"
    and "if accessKeysCache c1 = []
         then GetListAccessKeys env c1 = ((listed, None), ck) \<and>
              c2 = ck\<lparr>accessKeysCache := AccessKeys listed\<rparr>
         else c2 = c1"
  shows "((\<forall>r \<in> set (deleteResults env
                       (map Id' (withoutTraffic (transferredDataCache c2) (accessKeysCache c2)))
                       c2).
             snd r = None) \<longrightarrow>
          fst (DeleteAllKeysWithOutTraffic env c) = (True, None) \<and>
          issued c (snd (DeleteAllKeysWithOutTraffic env c)) =
            (if transferredDataCache c = None then [transferRequest c] else []) @
            (if accessKeysCache c = [] then [listRequest c] else []) @
            map (\<lambda>k. deleteRequest c (Id' k))
              (withoutTraffic (transferredDataCache c2) (accessKeysCache c2)))
     \<and> ((\<forall>x \<in> set (zip (map Id' (withoutTraffic (transferredDataCache c2) (accessKeysCache c2)))
                       (deleteStates env
                          (map Id' (withoutTraffic (transferredDataCache c2) (accessKeysCache c2)))
                          c2)).
             NewRequestErr env ''DELETE'' (ApiUrl (snd x) @ ''/access-keys/'' @ fst x) = None \<and>
             (\<exists>resp. fst (Do env (httpClient (snd x)) (deleteRequest (snd x) (fst x))) = Inr resp \<and>
                     200 \<le> StatusCode resp \<and> StatusCode resp < 300 \<and>
                     StatusCode resp \<noteq> 204)) \<longrightarrow>
          (\<forall>r \<in> set (deleteResults env
                        (map Id' (withoutTraffic (transferredDataCache c2) (accessKeysCache c2)))
                        c2).
             r = (False, None)) \<and>
          fst (DeleteAllKeysWithOutTraffic env c) = (True, None) \<and>
          issued c (snd (DeleteAllKeysWithOutTraffic env c)) =
            (if transferredDataCache c = None then [transferRequest c] else []) @
            (if accessKeysCache c = [] then [listRequest c] else []) @
            map (\<lambda>k. deleteRequest c (Id' k))
              (withoutTraffic (transferredDataCache c2) (accessKeysCache c2)))
     \<and> (NewRequestErr env ''DELETE'' (ApiUrl c' @ ''/access-keys/'' @ id') = None \<and>
          fst (Do env (httpClient c') (deleteRequest c' id')) = Inr resp \<and>
          200 \<le> StatusCode resp \<and> StatusCode resp < 300 \<and> StatusCode resp \<noteq> 204 \<longrightarrow>
        fst (DeleteAccessKey env id' c') = (False, None))
     \<and> (\<not> lookup_ok (transferredDataCache c') (Id' k) \<and>
          DeleteAccessKey env (Id' k) c' = ((False, None), c'') \<longrightarrow>
        DeleteAllKeysWithOutTraffic_loop env (k # keys) c' =
          DeleteAllKeysWithOutTraffic_loop env keys c'')"
proof -
  let ?D = "DeleteAllKeysWithOutTraffic env c"
  let ?cands = "withoutTraffic (transferredDataCache c2) (accessKeysCache c2)"
  let ?ids = "map Id' ?cands"
  let ?del = "\<lambda>k. deleteRequest c (Id' k)"
  let ?pt = "if transferredDataCache c = None then [transferRequest c] else []"
  let ?pk = "if accessKeysCache c = [] then [listRequest c] else []"
  let ?H = "\<forall>r \<in> set (deleteResults env ?ids c2). snd r = None"
  note t = transferred_phase [OF assms(1)]
  note k = keys_phase [OF assms(2)]
  note run = DeleteAllKeysWithOutTraffic_run [OF t(1) k(1)]
  from t(3) have lr: "listRequest c1 = listRequest c" by (simp add: listRequest_def)
  from t(2,4) k(2) lr have s2: "sent c2 = sent c @ ?pt @ ?pk" by simp
  have a: "?H \<longrightarrow> fst ?D = (True, None) \<and> issued c (snd ?D) = ?pt @ ?pk @ map ?del ?cands"
  proof
    assume ?H
    with run(4) have r: "fst ?D = (True, None)" by blast
    with run(2) s2 have "sent (snd ?D) = sent c @ (?pt @ ?pk @ map ?del ?cands)" by simp
    then have "issued c (snd ?D) = ?pt @ ?pk @ map ?del ?cands" by (rule issued_append)
    with r show "fst ?D = (True, None) \<and> issued c (snd ?D) = ?pt @ ?pk @ map ?del ?cands"
      by blast
  qed
  have b: "(\<forall>x \<in> set (zip ?ids (deleteStates env ?ids c2)).
             NewRequestErr env ''DELETE'' (ApiUrl (snd x) @ ''/access-keys/'' @ fst x) = None \<and>
             (\<exists>resp. fst (Do env (httpClient (snd x)) (deleteRequest (snd x) (fst x))) = Inr resp \<and>
                     200 \<le> StatusCode resp \<and> StatusCode resp < 300 \<and>
                     StatusCode resp \<noteq> 204)) \<longrightarrow>
          (\<forall>r \<in> set (deleteResults env ?ids c2). r = (False, None)) \<and>
          fst ?D = (True, None) \<and> issued c (snd ?D) = ?pt @ ?pk @ map ?del ?cands"
  proof
    assume h: "\<forall>x \<in> set (zip ?ids (deleteStates env ?ids c2)).
             NewRequestErr env ''DELETE'' (ApiUrl (snd x) @ ''/access-keys/'' @ fst x) = None \<and>
             (\<exists>resp. fst (Do env (httpClient (snd x)) (deleteRequest (snd x) (fst x))) = Inr resp \<and>
                     200 \<le> StatusCode resp \<and> StatusCode resp < 300 \<and>
                     StatusCode resp \<noteq> 204)"
    have f: "\<forall>r \<in> set (deleteResults env ?ids c2). r = (False, None)"
    proof
      fix r
      assume "r \<in> set (deleteResults env ?ids c2)"
      then obtain x where x: "x \<in> set (zip ?ids (deleteStates env ?ids c2))"
        "r = fst (DeleteAccessKey env (fst x) (snd x))"
        unfolding deleteResults_zip [of env ?ids c2] by auto
      from h x(1) obtain resp where
        "NewRequestErr env ''DELETE'' (ApiUrl (snd x) @ ''/access-keys/'' @ fst x) = None"
        "fst (Do env (httpClient (snd x)) (deleteRequest (snd x) (fst x))) = Inr resp"
        "200 \<le> StatusCode resp" "StatusCode resp < 300" "StatusCode resp \<noteq> 204"
        by blast
      then have "fst (DeleteAccessKey env (fst x) (snd x)) = (False, None)"
        by (rule DeleteAccessKey_2xx_not_204)
      with x(2) show "r = (False, None)" by simp
    qed
    then have ?H by auto
    with a f show "(\<forall>r \<in> set (deleteResults env ?ids c2). r = (False, None)) \<and>
          fst ?D = (True, None) \<and> issued c (snd ?D) = ?pt @ ?pk @ map ?del ?cands"
      by blast
  qed
  have s: "NewRequestErr env ''DELETE'' (ApiUrl c' @ ''/access-keys/'' @ id') = None \<and>
          fst (Do env (httpClient c') (deleteRequest c' id')) = Inr resp \<and>
          200 \<le> StatusCode resp \<and> StatusCode resp < 300 \<and> StatusCode resp \<noteq> 204 \<longrightarrow>
        fst (DeleteAccessKey env id' c') = (False, None)"
    using DeleteAccessKey_2xx_not_204 [of env c' id' resp] by blast
  have l: "\<not> lookup_ok (transferredDataCache c') (Id' k) \<and>
          DeleteAccessKey env (Id' k) c' = ((False, None), c'') \<longrightarrow>
        DeleteAllKeysWithOutTraffic_loop env (k # keys) c' =
          DeleteAllKeysWithOutTraffic_loop env keys c''"
    by simp
  show ?thesis by (intro conjI; fact)
qed

theorem DeleteAllKeysWithOutTraffic_drops_boolean_witness:
  "fst (DeleteAllKeysWithOutTraffic (flakyEnv 4 (respondABC (respondWith 200 []))) client0) =
     (True, None)
   \<and> issued client0
       (snd (DeleteAllKeysWithOutTraffic (flakyEnv 4 (respondABC (respondWith 200 []))) client0)) =
     [transferRequest client0, listRequest client0,
      deleteRequest client0 ''b'', deleteRequest client0 ''c'']
   \<and> deleteResults (flakyEnv 4 (respondABC (respondWith 200 []))) [''b'', ''c'']
       (client0\<lparr>httpClient := 2, sent := [transferRequest client0, listRequest client0],
                accessKeysCache := [keyOf ''a'', keyOf ''b'', keyOf ''c''],
                transferredDataCache := Some (fmap_of_list [(''a'', 100)])\<rparr>) =
     [(False, None), (False, None)]
   \<and> fst (DeleteAccessKey (flakyEnv 4 (respondABC (respondWith 200 []))) ''a''
           (client0\<lparr>httpClient := 4\<rparr>)) =
     (False, Some (FailedToSendDELETE (FailedToExecuteRequest (External ''connection reset''))))"
proof -
  let ?env = "flakyEnv 4 (respondABC (respondWith 200 []))"
  let ?m = "Some (fmap_of_list [(''a'', 100 :: 64 word)])"
  let ?keys = "[keyOf ''a'', keyOf ''b'', keyOf ''c'']"
  let ?tr = "\<lparr>BytesTransferredByUserId = ?m\<rparr>"
  let ?li = "\<lparr>AccessKeys = ?keys\<rparr>"
  let ?ct = "client0\<lparr>httpClient := 1, sent := [transferRequest client0]\<rparr>"
  let ?c1 = "?ct\<lparr>transferredDataCache := ?m\<rparr>"
  let ?ck = "?c1\<lparr>httpClient := 2, sent := [transferRequest client0, listRequest client0]\<rparr>"
  let ?c2 = "?ck\<lparr>accessKeysCache := ?keys\<rparr>"
  have tf: "if transferredDataCache client0 = None
      then DataTransferredAccessKey ?env client0 = ((?tr, None), ?ct) \<and>
           ?c1 = ?ct\<lparr>transferredDataCache := BytesTransferredByUserId ?tr\<rparr>
      else ?c1 = client0"
    by (simp add: fetch_simps mock_simps)
  have kf: "if accessKeysCache ?c1 = []
      then GetListAccessKeys ?env ?c1 = ((?li, None), ?ck) \<and>
           ?c2 = ?ck\<lparr>accessKeysCache := AccessKeys ?li\<rparr>
      else ?c2 = ?c1"
    by (simp add: fetch_simps mock_simps)
  have cands: "withoutTraffic (transferredDataCache ?c2) (accessKeysCache ?c2) =
      [keyOf ''b'', keyOf ''c'']"
    by (simp add: withoutTraffic_def lookup_ok_def keyOf_def)
  have ids: "map Id' [keyOf ''b'', keyOf ''c''] = [''b'', ''c'']"
    by (simp add: keyOf_def)
  note th = DeleteAllKeysWithOutTraffic_drops_boolean [OF tf kf, unfolded cands ids,
      THEN conjunct2, THEN conjunct1]
  have h: "\<forall>x \<in> set (zip [''b'', ''c''] (deleteStates ?env [''b'', ''c''] ?c2)).
      NewRequestErr ?env ''DELETE'' (ApiUrl (snd x) @ ''/access-keys/'' @ fst x) = None \<and>
      (\<exists>resp. fst (Do ?env (httpClient (snd x)) (deleteRequest (snd x) (fst x))) = Inr resp \<and>
              200 \<le> StatusCode resp \<and> StatusCode resp < 300 \<and> StatusCode resp \<noteq> 204)"
    by (simp add: run_simps mock_simps fetch_simps)
  from th h have r: "(\<forall>r \<in> set (deleteResults ?env [''b'', ''c''] ?c2). r = (False, None))"
    "fst (DeleteAllKeysWithOutTraffic ?env client0) = (True, None)"
    "issued client0 (snd (DeleteAllKeysWithOutTraffic ?env client0)) =
       (if transferredDataCache client0 = None then [transferRequest client0] else []) @
       (if accessKeysCache client0 = [] then [listRequest client0] else []) @
       map (\<lambda>k. deleteRequest client0 (Id' k)) [keyOf ''b'', keyOf ''c'']"
    by blast+
  from r(1) have r1: "deleteResults ?env [''b'', ''c''] ?c2 = [(False, None), (False, None)]"
    by simp
  from r(3) have r3: "issued client0 (snd (DeleteAllKeysWithOutTraffic ?env client0)) =
      [transferRequest client0, listRequest client0,
       deleteRequest client0 ''b'', deleteRequest client0 ''c'']"
    by (simp add: client0_def keyOf_def)
  have r4: "fst (DeleteAccessKey ?env ''a'' (client0\<lparr>httpClient := 4\<rparr>)) =
      (False, Some (FailedToSendDELETE (FailedToExecuteRequest (External ''connection reset''))))"
    by (simp add: run_simps mock_simps fetch_simps)
  have e: "?c2 = client0\<lparr>httpClient := 2,
      sent := [transferRequest client0, listRequest client0],
      accessKeysCache := [keyOf ''a'', keyOf ''b'', keyOf ''c''],
      transferredDataCache := Some (fmap_of_list [(''a'', 100)])\<rparr>"
    by (simp add: client0_def)
  from r(2) r1 r3 r4 show ?thesis unfolding e by simp
qed



end
